theory Spec2Isabelle
  imports Main "HOL-Library.Sublist"
begin

section \<open>Phone validation (src/lib/validation.ts and the constants of src/lib/utils.ts)\<close>

text \<open>
  JavaScript strings are modelled as \<open>string\<close>; a character stands for a UTF-16 code unit
  below 256. The three regular expressions of \<open>PHONE_PATTERNS\<close> are anchored sequences of
  literal characters and counted digit classes, so a pattern is a list of atoms with a
  repetition count, matched against the whole string.
\<close>

datatype atom = Lit char | Digit

type_synonym regex = "(atom \<times> nat) list"

definition is_digit :: "char \<Rightarrow> bool" where
  "is_digit c = (c \<in> set ''0123456789'')"

fun atom_matches :: "atom \<Rightarrow> char \<Rightarrow> bool" where
  "atom_matches (Lit l) c = (c = l)"
| "atom_matches Digit c = is_digit c"

text \<open>\<open>pattern.test(s)\<close> for an anchored pattern \<open>^...$\<close>: every atom consumes exactly
  its count of characters, and the input must end where the pattern ends.\<close>

fun test :: "regex \<Rightarrow> string \<Rightarrow> bool" where
  "test [] s = (s = [])"
| "test ((a, 0) # p) s = test p s"
| "test ((a, Suc n) # p) [] = False"
| "test ((a, Suc n) # p) (c # cs) = (atom_matches a c \<and> test ((a, n) # p) cs)"

definition STANDARD :: regex where
  "STANDARD = [(Lit CHR ''0'', 1), (Lit CHR ''9'', 1), (Digit, 9)]"

definition INTERNATIONAL :: regex where
  "INTERNATIONAL = [(Lit CHR ''+'', 1), (Lit CHR ''9'', 1), (Lit CHR ''8'', 1), (Lit CHR ''9'', 1), (Digit, 9)]"

definition COUNTRY_CODE :: regex where
  "COUNTRY_CODE = [(Lit CHR ''0'', 1), (Lit CHR ''0'', 1), (Lit CHR ''9'', 1), (Lit CHR ''8'', 1),
     (Lit CHR ''9'', 1), (Digit, 9)]"

text \<open>\<open>Object.values(PHONE_PATTERNS)\<close>, in declaration order.\<close>

definition PHONE_PATTERNS :: "regex list" where
  "PHONE_PATTERNS = [STANDARD, INTERNATIONAL, COUNTRY_CODE]"

text \<open>\<open>String.prototype.trim\<close>: the white space and line terminator code units below 256
  are TAB, LF, VT, FF, CR, SPACE and NBSP.\<close>

definition is_whitespace :: "char \<Rightarrow> bool" where
  "is_whitespace c = (c \<in> set [CHR 0x09, CHR 0x0A, CHR 0x0B, CHR 0x0C, CHR 0x0D, CHR 0x20, CHR 0xA0])"

definition trim :: "string \<Rightarrow> string" where
  "trim s = rev (dropWhile is_whitespace (rev (dropWhile is_whitespace s)))"

definition startsWith :: "string \<Rightarrow> string \<Rightarrow> bool" where
  "startsWith s p = (take (length p) s = p)"

text \<open>\<open>s.slice(n)\<close> for a non-negative \<open>n\<close>.\<close>

definition slice :: "string \<Rightarrow> nat \<Rightarrow> string" where
  "slice s n = drop n s"

text \<open>The parameter is a string, so of the guard \<open>!phone || typeof phone !== 'string'\<close>
  only the empty string is left.\<close>

definition validateIranianPhone :: "string \<Rightarrow> bool" where
  "validateIranianPhone phone =
     (if phone = [] then False
      else let cleanPhone = trim phone
           in list_ex (\<lambda>pattern. test pattern cleanPhone) PHONE_PATTERNS)"

definition normalizeIranianPhone :: "string \<Rightarrow> string" where
  "normalizeIranianPhone phone =
     (if \<not> validateIranianPhone phone then phone
      else let cleanPhone = trim phone
           in if startsWith cleanPhone ''+989'' then ''0'' @ slice cleanPhone 3
              else if startsWith cleanPhone ''00989'' then ''0'' @ slice cleanPhone 4
              else cleanPhone)"


section \<open>JavaScript values, exceptions and the browser platform\<close>

text \<open>
  Run-time values are the values of JSON; \<open>undefined\<close> is \<open>None\<close> of \<open>jsval option\<close>.
  Numbers are kept as integers: the code only tests them for truthiness.
  An object is the list of its own properties in insertion order.
\<close>

datatype jsval =
    JNull
  | JBool bool
  | JNum int
  | JStr string
  | JArr "jsval list"
  | JObj "(string \<times> jsval) list"

fun truthy :: "jsval option \<Rightarrow> bool" where
  "truthy None = False"
| "truthy (Some JNull) = False"
| "truthy (Some (JBool b)) = b"
| "truthy (Some (JNum n)) = (n \<noteq> 0)"
| "truthy (Some (JStr s)) = (s \<noteq> [])"
| "truthy (Some (JArr xs)) = True"
| "truthy (Some (JObj kvs)) = True"

text \<open>\<open>typeof v === 'string'\<close>.\<close>

fun typeof_string :: "jsval option \<Rightarrow> bool" where
  "typeof_string (Some (JStr s)) = True"
| "typeof_string v = False"

text \<open>Thrown values: an \<open>ApiError\<close> (message, optional status), any other \<open>Error\<close>
  (name, message), or a value that is not an \<open>Error\<close> instance.\<close>

datatype thrown =
    ApiError string "nat option"
  | Error string string
  | NonError

fun instanceof_ApiError :: "thrown \<Rightarrow> bool" where
  "instanceof_ApiError (ApiError m st) = True"
| "instanceof_ApiError e = False"

fun instanceof_Error :: "thrown \<Rightarrow> bool" where
  "instanceof_Error NonError = False"
| "instanceof_Error e = True"

fun error_name :: "thrown \<Rightarrow> string" where
  "error_name (ApiError m st) = ''ApiError''"
| "error_name (Error n m) = n"
| "error_name NonError = []"

fun error_message :: "thrown \<Rightarrow> string" where
  "error_message (ApiError m st) = m"
| "error_message (Error n m) = m"
| "error_message NonError = []"

fun error_status :: "thrown \<Rightarrow> nat option" where
  "error_status (ApiError m st) = st"
| "error_status e = None"

text \<open>Property read \<open>v.k\<close>: a \<open>TypeError\<close> on \<open>null\<close> and \<open>undefined\<close>, the own property of
  an object, and \<open>undefined\<close> on every other value (none of the keys read by this program
  is a property of a string, number, boolean or array).\<close>

fun property :: "jsval option \<Rightarrow> string \<Rightarrow> thrown + jsval option" where
  "property None k = Inl (Error ''TypeError'' ''Cannot read properties of undefined'')"
| "property (Some JNull) k = Inl (Error ''TypeError'' ''Cannot read properties of null'')"
| "property (Some (JObj kvs)) k = Inr (map_of kvs k)"
| "property (Some v) k = Inr None"

text \<open>The same read behind a truthiness guard (\<open>v && v.k\<close>, \<open>!v || !v.k\<close>), where it cannot
  throw.\<close>

fun get :: "jsval option \<Rightarrow> string \<Rightarrow> jsval option" where
  "get (Some (JObj kvs)) k = map_of kvs k"
| "get v k = None"

text \<open>\<open>hay.includes(needle)\<close>.\<close>

fun str_includes :: "string \<Rightarrow> string \<Rightarrow> bool" where
  "str_includes [] needle = (needle = [])"
| "str_includes (c # cs) needle = (startsWith (c # cs) needle \<or> str_includes cs needle)"

text \<open>
  \<open>JSON.stringify\<close>, \<open>JSON.parse\<close> and \<open>process.env.NODE_ENV\<close> are supplied by the platform
  and are parameters of the model.
\<close>

record platform =
  JSON_stringify :: "jsval \<Rightarrow> string"
  JSON_parse :: "string \<Rightarrow> thrown + jsval"
  NODE_ENV :: string

text \<open>
  \<open>localStorage\<close>: absent (\<open>typeof Storage === 'undefined'\<close> or a falsy \<open>localStorage\<close>),
  denied (every access raises a \<open>SecurityError\<close>) or working. A working store keeps its items
  and refuses a value longer than its quota with a \<open>QuotaExceededError\<close>.
\<close>

datatype availability = Absent | Denied | Working

record localStorage =
  available :: availability
  quota :: nat
  items :: "string \<rightharpoonup> string"

definition SecurityError :: thrown where
  "SecurityError = Error ''SecurityError'' ''The operation is insecure.''"

definition access :: "localStorage \<Rightarrow> thrown option" where
  "access ls = (case available ls of
       Working \<Rightarrow> None
     | Denied \<Rightarrow> Some SecurityError
     | Absent \<Rightarrow> Some (Error ''TypeError'' ''localStorage is undefined''))"

definition getItem :: "localStorage \<Rightarrow> string \<Rightarrow> thrown + string option" where
  "getItem ls k = (case access ls of Some e \<Rightarrow> Inl e | None \<Rightarrow> Inr (items ls k))"

definition setItem :: "localStorage \<Rightarrow> string \<Rightarrow> string \<Rightarrow> thrown + localStorage" where
  "setItem ls k v =
     (case access ls of
        Some e \<Rightarrow> Inl e
      | None \<Rightarrow>
          if quota ls < length v
          then Inl (Error ''QuotaExceededError'' ''The quota has been exceeded.'')
          else Inr (ls\<lparr>items := (items ls)(k \<mapsto> v)\<rparr>))"

definition removeItem :: "localStorage \<Rightarrow> string \<Rightarrow> thrown + localStorage" where
  "removeItem ls k =
     (case access ls of
        Some e \<Rightarrow> Inl e
      | None \<Rightarrow> Inr (ls\<lparr>items := (items ls)(k := None)\<rparr>))"

text \<open>The guard \<open>typeof Storage === 'undefined' || !localStorage\<close>.\<close>

definition storage_missing :: "localStorage \<Rightarrow> thrown + bool" where
  "storage_missing ls = (case available ls of
       Absent \<Rightarrow> Inr True
     | Denied \<Rightarrow> Inl SecurityError
     | Working \<Rightarrow> Inr False)"

section \<open>Session store (src/lib/auth.ts)\<close>

definition USER_DATA :: string where
  "USER_DATA = ''auth_user_data''"

text \<open>The body of the \<open>try\<close> block of \<open>saveUserToStorage\<close>; the store is returned as the
  block leaves it.\<close>

definition saveUserToStorage_try ::
  "platform \<Rightarrow> jsval option \<Rightarrow> localStorage \<Rightarrow> (thrown + unit) \<times> localStorage" where
  "saveUserToStorage_try P user ls =
     (case storage_missing ls of
        Inl e \<Rightarrow> (Inl e, ls)
      | Inr True \<Rightarrow> (Inl (Error ''Error'' ''localStorage is not available in this browser''), ls)
      | Inr False \<Rightarrow>
          if \<not> truthy user \<or> \<not> truthy (get user ''name'') \<or> \<not> truthy (get user ''email'')
             \<or> \<not> truthy (get user ''picture'')
          then (Inl (Error ''Error'' ''Invalid user data: missing required fields''), ls)
          else
            (case user of
               None \<Rightarrow> (Inl (Error ''Error'' ''Invalid user data: missing required fields''), ls)
             | Some u \<Rightarrow>
                 let userData = JSON_stringify P u in
                 (case setItem ls USER_DATA userData of
                    Inl e \<Rightarrow> (Inl e, ls)
                  | Inr ls1 \<Rightarrow>
                      if NODE_ENV P \<noteq> ''test''
                      then
                        (case getItem ls1 USER_DATA of
                           Inl e \<Rightarrow> (Inl e, ls1)
                         | Inr storedData \<Rightarrow>
                             if storedData = None \<or> storedData = Some [] \<or> storedData \<noteq> Some userData
                             then (Inl (Error ''Error'' ''Failed to verify stored user data''), ls1)
                             else (Inr (), ls1))
                      else (Inr (), ls1))))"

text \<open>The \<open>catch\<close> block of \<open>saveUserToStorage\<close>: what it throws for a caught value.\<close>

definition saveUserToStorage_catch :: "thrown \<Rightarrow> thrown" where
  "saveUserToStorage_catch error =
     (if instanceof_Error error
      then
        if str_includes (error_message error) ''QuotaExceededError''
           \<or> error_name error = ''QuotaExceededError''
           \<or> str_includes (error_message error) ''Storage quota exceeded''
        then Error ''Error'' ''Storage quota exceeded. Please clear some browser data and try again.''
        else if str_includes (error_message error) ''not available''
        then Error ''Error'' ''Browser storage is not available. Please enable localStorage and try again.''
        else error
      else Error ''Error'' ''Unable to save login information. Please try again.'')"

definition saveUserToStorage ::
  "platform \<Rightarrow> jsval option \<Rightarrow> localStorage \<Rightarrow> (thrown + unit) \<times> localStorage" where
  "saveUserToStorage P user ls =
     (case saveUserToStorage_try P user ls of
        (Inr saved, ls1) \<Rightarrow> (Inr saved, ls1)
      | (Inl error, ls1) \<Rightarrow> (Inl (saveUserToStorage_catch error), ls1))"

text \<open>The structural test of \<open>getUserFromStorage\<close> on the parsed value.\<close>

definition valid_structure :: "jsval option \<Rightarrow> bool" where
  "valid_structure user =
     (truthy user
      \<and> truthy (get user ''name'')
      \<and> typeof_string (get (get user ''name'') ''first'')
      \<and> typeof_string (get (get user ''name'') ''last'')
      \<and> typeof_string (get user ''email'')
      \<and> truthy (get user ''picture'')
      \<and> typeof_string (get (get user ''picture'') ''large'')
      \<and> typeof_string (get (get user ''picture'') ''medium'')
      \<and> typeof_string (get (get user ''picture'') ''thumbnail''))"

text \<open>The body of the \<open>try\<close> block of \<open>getUserFromStorage\<close>; \<open>Inr None\<close> is the result
  \<open>null\<close>.\<close>

definition getUserFromStorage_try ::
  "platform \<Rightarrow> localStorage \<Rightarrow> (thrown + jsval option) \<times> localStorage" where
  "getUserFromStorage_try P ls =
     (case storage_missing ls of
        Inl e \<Rightarrow> (Inl e, ls)
      | Inr True \<Rightarrow> (Inr None, ls)
      | Inr False \<Rightarrow>
          (case getItem ls USER_DATA of
             Inl e \<Rightarrow> (Inl e, ls)
           | Inr None \<Rightarrow> (Inr None, ls)
           | Inr (Some userData) \<Rightarrow>
               if userData = [] then (Inr None, ls)
               else
                 (case JSON_parse P userData of
                    Inl e \<Rightarrow> (Inl e, ls)
                  | Inr user \<Rightarrow>
                      if valid_structure (Some user) then (Inr (Some user), ls)
                      else
                        (case removeItem ls USER_DATA of
                           Inl e \<Rightarrow> (Inl e, ls)
                         | Inr ls1 \<Rightarrow> (Inr None, ls1)))))"

text \<open>With its \<open>catch\<close> block: the removal is tried again, a failure of the removal is
  swallowed, and \<open>null\<close> is returned.\<close>

definition getUserFromStorage ::
  "platform \<Rightarrow> localStorage \<Rightarrow> (thrown + jsval option) \<times> localStorage" where
  "getUserFromStorage P ls =
     (case getUserFromStorage_try P ls of
        (Inr user, ls1) \<Rightarrow> (Inr user, ls1)
      | (Inl error, ls1) \<Rightarrow>
          (case removeItem ls1 USER_DATA of
             Inl clearFailure \<Rightarrow> (Inr None, ls1)
           | Inr ls2 \<Rightarrow> (Inr None, ls2)))"


section \<open>Identity client (src/unnamed/part_000, imported as lib/api)\<close>

text \<open>Decimal digits of a number, as a template literal prints it.\<close>

fun show_nat :: "nat \<Rightarrow> string" where
  "show_nat n =
     (if n < 10 then [''0123456789'' ! n]
      else show_nat (n div 10) @ [''0123456789'' ! (n mod 10)])"

declare show_nat.simps [simp del]

definition show_int :: "int \<Rightarrow> string" where
  "show_int i = (if i < 0 then ''-'' @ show_nat (nat (- i)) else show_nat (nat i))"

fun join :: "string \<Rightarrow> string list \<Rightarrow> string" where
  "join sep [] = []"
| "join sep [x] = x"
| "join sep (x # y # ys) = x @ sep @ join sep (y # ys)"

text \<open>
  The conversion of a value to a string inside a template literal. An object is converted
  through its \<open>toString\<close> and \<open>valueOf\<close> properties: with the inherited ones the result is
  \<open>[object Object]\<close>, and with an own \<open>toString\<close> property, which no value of JSON makes
  callable, the conversion throws a \<open>TypeError\<close>. An array joins the conversions of its
  elements, \<open>null\<close> giving the empty string, and throws where one of them does.
\<close>

fun convertible :: "jsval \<Rightarrow> bool" where
  "convertible (JArr xs) = list_all convertible xs"
| "convertible (JObj kvs) = (map_of kvs ''toString'' = None)"
| "convertible v = True"

fun converted :: "jsval \<Rightarrow> string" where
  "converted JNull = ''null''"
| "converted (JBool b) = (if b then ''true'' else ''false'')"
| "converted (JNum n) = show_int n"
| "converted (JStr s) = s"
| "converted (JArr xs) = join '','' (map (\<lambda>x. if x = JNull then [] else converted x) xs)"
| "converted (JObj kvs) = ''[object Object]''"

definition to_string :: "jsval \<Rightarrow> thrown + string" where
  "to_string v =
     (if convertible v then Inr (converted v)
      else Inl (Error ''TypeError'' ''Cannot convert object to primitive value''))"

definition template :: "jsval option \<Rightarrow> thrown + string" where
  "template v = (case v of None \<Rightarrow> Inr ''undefined'' | Some x \<Rightarrow> to_string x)"

text \<open>\<open>URLSearchParams.prototype.toString\<close>: the form-urlencoded serialisation of the UTF-8
  bytes of each name and value.\<close>

definition hex_digit :: "nat \<Rightarrow> char" where
  "hex_digit d = ''0123456789ABCDEF'' ! d"

definition percent :: "nat \<Rightarrow> string" where
  "percent b = [CHR ''%'', hex_digit (b div 16), hex_digit (b mod 16)]"

definition urlencode_char :: "char \<Rightarrow> string" where
  "urlencode_char c =
     (let n = (of_char c :: nat) in
      if c = CHR '' '' then ''+''
      else if c \<in> set ''ABCDEFGHIJKLMNOPQRSTUVWXYZabcdefghijklmnopqrstuvwxyz0123456789*-._'' then [c]
      else if n < 128 then percent n
      else percent (192 + n div 64) @ percent (128 + n mod 64))"

definition urlencode :: "string \<Rightarrow> string" where
  "urlencode s = concat (map urlencode_char s)"

definition URLSearchParams_toString :: "(string \<times> string) list \<Rightarrow> string" where
  "URLSearchParams_toString params = join ''&'' (map (\<lambda>(k, v). urlencode k @ ''='' @ urlencode v) params)"

record avatars =
  large :: string
  medium :: string
  thumbnail :: string

text \<open>The two avatar generators; the template literal \<open>`${firstName} ${lastName}`\<close>
  converts the first name, then the last name, and either conversion may throw.\<close>

definition generateHijabAvatars :: "jsval option \<Rightarrow> jsval option \<Rightarrow> thrown + avatars" where
  "generateHijabAvatars firstName lastName =
     (case template firstName of
        Inl e \<Rightarrow> Inl e
      | Inr firstText \<Rightarrow>
          (case template lastName of
             Inl e \<Rightarrow> Inl e
           | Inr lastText \<Rightarrow>
               let fullName = firstText @ '' '' @ lastText;
                   diceBearUrl = ''https://api.dicebear.com/8.x/avataaars/png'';
                   params = URLSearchParams_toString
                     [(''seed'', fullName),
                      (''top'', ''hijab''),
                      (''topColor'', ''262e33,65c9ff,f88c49,ff5722,ff9800,ffc107''),
                      (''backgroundColor'', ''f3f4f6''),
                      (''clothingGraphic'', ''none''),
                      (''eyebrows'', ''default''),
                      (''eyes'', ''default''),
                      (''facialHair'', ''none''),
                      (''mouth'', ''default''),
                      (''skinColor'', ''fdbcb4,edb98a,fd9841,f8d25c,f1c27d,ffdbac'')];
                   baseUrl = diceBearUrl @ ''?'' @ params
               in Inr \<lparr>large = baseUrl @ ''&size=256'', medium = baseUrl @ ''&size=128'',
                       thumbnail = baseUrl @ ''&size=64''\<rparr>))"

definition generateAlternativeHijabAvatars :: "jsval option \<Rightarrow> jsval option \<Rightarrow> thrown + avatars" where
  "generateAlternativeHijabAvatars firstName lastName =
     (case template firstName of
        Inl e \<Rightarrow> Inl e
      | Inr firstText \<Rightarrow>
          (case template lastName of
             Inl e \<Rightarrow> Inl e
           | Inr lastText \<Rightarrow>
               let fullName = firstText @ '' '' @ lastText;
                   diceBearUrl = ''https://api.dicebear.com/8.x/adventurer/png'';
                   params = URLSearchParams_toString
                     [(''seed'', fullName),
                      (''backgroundColor'', ''f3f4f6'')];
                   baseUrl = diceBearUrl @ ''?'' @ params
               in Inr \<lparr>large = baseUrl @ ''&size=256'', medium = baseUrl @ ''&size=128'',
                       thumbnail = baseUrl @ ''&size=64''\<rparr>))"

text \<open>The object literal holding the three URLs.\<close>

definition avatars_object :: "avatars \<Rightarrow> jsval" where
  "avatars_object a =
     JObj [(''large'', JStr (large a)), (''medium'', JStr (medium a)), (''thumbnail'', JStr (thumbnail a))]"

text \<open>A response of \<open>fetch\<close>: \<open>ok\<close>, \<open>status\<close>, and what \<open>json()\<close> settles to. The network
  maps a URL to the outcome of fetching it.\<close>

datatype response = Response (ok: bool) (status: nat) (json: "thrown + jsval")

type_synonym network = "string \<Rightarrow> thrown + response"

definition RANDOM_USER_URL :: string where
  "RANDOM_USER_URL = ''https://randomuser.me/api/?results=1&nat=ir''"

definition TIMEOUT :: string where
  "TIMEOUT = ''Request timed out. Please check your internet connection and try again.''"

definition CONNECTION_ERROR :: string where
  "CONNECTION_ERROR = ''Unable to connect to the server. Please check your internet connection and try again.''"

definition testAvatarUrl :: "network \<Rightarrow> string \<Rightarrow> bool" where
  "testAvatarUrl net url = (case net url of Inl e \<Rightarrow> False | Inr response \<Rightarrow> ok response)"

fun assign :: "string \<Rightarrow> jsval \<Rightarrow> (string \<times> jsval) list \<Rightarrow> (string \<times> jsval) list" where
  "assign k v [] = [(k, v)]"
| "assign k v ((k', v') # kvs) = (if k' = k then (k, v) # kvs else (k', v') # assign k v kvs)"

text \<open>\<open>{...user, picture: p}\<close>. The spread is reached only with a \<open>user\<close> whose \<open>name\<close> is
  truthy, which is an object.\<close>

fun spread_picture :: "jsval option \<Rightarrow> jsval \<Rightarrow> jsval" where
  "spread_picture (Some (JObj kvs)) p = JObj (assign ''picture'' p kvs)"
| "spread_picture user p = JObj [(''picture'', p)]"

fun isArray :: "jsval option \<Rightarrow> bool" where
  "isArray (Some (JArr xs)) = True"
| "isArray v = False"

fun elements :: "jsval option \<Rightarrow> jsval list" where
  "elements (Some (JArr xs)) = xs"
| "elements v = []"

text \<open>\<open>a[i]\<close> on an array: \<open>undefined\<close> out of range.\<close>

definition index :: "jsval option \<Rightarrow> nat \<Rightarrow> jsval option" where
  "index a i = (if i < length (elements a) then Some (elements a ! i) else None)"

text \<open>The body of the \<open>try\<close> block of \<open>fetchRandomUser\<close>.\<close>

definition fetchRandomUser_try :: "network \<Rightarrow> thrown + jsval" where
  "fetchRandomUser_try net =
     (case net RANDOM_USER_URL of
        Inl e \<Rightarrow> Inl e
      | Inr response \<Rightarrow>
          if \<not> ok response
          then Inl (ApiError (''API request failed with status '' @ show_nat (status response))
                      (Some (status response)))
          else
            (case json response of
               Inl e \<Rightarrow> Inl e
             | Inr data \<Rightarrow>
                 (case property (Some data) ''results'' of
                    Inl e \<Rightarrow> Inl e
                  | Inr results \<Rightarrow>
                      if \<not> truthy results \<or> \<not> isArray results \<or> length (elements results) = 0
                      then Inl (ApiError ''Invalid API response: no user data found'' None)
                      else
                        let user = index results 0 in
                        (case property user ''name'' of
                           Inl e \<Rightarrow> Inl e
                         | Inr name \<Rightarrow>
                             if \<not> truthy name \<or> \<not> truthy (get user ''email'')
                                \<or> \<not> truthy (get user ''picture'')
                             then Inl (ApiError ''Invalid user data: missing required fields'' None)
                             else
                               (case generateHijabAvatars (get name ''first'') (get name ''last'') of
                                  Inl e \<Rightarrow> Inl e
                                | Inr hijabAvatars \<Rightarrow>
                                    let isValidUrl = testAvatarUrl net (medium hijabAvatars) in
                                    if \<not> isValidUrl
                                    then
                                      (case generateAlternativeHijabAvatars (get name ''first'')
                                              (get name ''last'') of
                                         Inl e \<Rightarrow> Inl e
                                       | Inr alternative \<Rightarrow>
                                           Inr (spread_picture user (avatars_object alternative)))
                                    else Inr (spread_picture user (avatars_object hijabAvatars)))))))"

text \<open>The \<open>catch\<close> block of \<open>fetchRandomUser\<close>: what it throws for a caught value.\<close>

definition fetchRandomUser_catch :: "thrown \<Rightarrow> thrown" where
  "fetchRandomUser_catch error =
     (if instanceof_ApiError error then error
      else if instanceof_Error error \<and> error_name error = ''AbortError'' then ApiError TIMEOUT None
      else if instanceof_Error error \<and> str_includes (error_message error) ''Failed to fetch''
      then ApiError CONNECTION_ERROR None
      else ApiError ''An unexpected error occurred'' None)"

definition fetchRandomUser :: "network \<Rightarrow> thrown + jsval" where
  "fetchRandomUser net =
     (case fetchRandomUser_try net of
        Inr user \<Rightarrow> Inr user
      | Inl error \<Rightarrow> Inl (fetchRandomUser_catch error))"


section \<open>Login controller (src/components/login-form.tsx)\<close>

datatype ErrorType = validation | network | api | storage | redirect | general

record ErrorState =
  message :: string
  type :: ErrorType
  retryable :: bool

text \<open>The five \<open>useState\<close> cells of \<open>LoginForm\<close>.\<close>

record form =
  phoneNumber :: string
  error :: "ErrorState option"
  isLoading :: bool
  isRedirecting :: bool
  retryCount :: nat

text \<open>What a handler can change: the component state, the store, and the paths pushed to
  the router.\<close>

record world =
  form :: form
  store :: localStorage
  pushed :: "string list"

text \<open>What the environment answers during one run of \<open>handleSubmit\<close>: the network, and
  whether \<open>router.push\<close> throws.\<close>

record attempt =
  net :: network
  push_throws :: bool

text \<open>
  A handler is a closure of the render that created it: \<open>phoneNumber\<close>, \<open>error\<close> and
  \<open>retryCount\<close> in its body are the constants \<open>r\<close> of that render, and the setters write the
  next state \<open>f\<close> without changing them. In particular \<open>retryCount + 1\<close> in the \<open>catch\<close>
  of \<open>handleSubmit\<close> reads the count of the render in which the action was triggered, not
  the 0 that \<open>clearError\<close> has just passed to \<open>setRetryCount\<close>; the test "shows retry
  attempts and limits" of the repository observes "Attempt 2 of 3" after one retry.
\<close>

definition setErrorState :: "string \<Rightarrow> ErrorType \<Rightarrow> bool \<Rightarrow> form \<Rightarrow> form" where
  "setErrorState msg ty rt f = f\<lparr>error := Some \<lparr>message = msg, type = ty, retryable = rt\<rparr>\<rparr>"

definition clearError :: "form \<Rightarrow> form" where
  "clearError f = f\<lparr>error := None, retryCount := 0\<rparr>"

definition handlePhoneChange :: "form \<Rightarrow> string \<Rightarrow> form \<Rightarrow> form" where
  "handlePhoneChange r val f =
     (let f1 = f\<lparr>phoneNumber := val\<rparr>
      in if error r \<noteq> None then clearError f1 else f1)"

definition validateForm :: "form \<Rightarrow> form \<Rightarrow> bool \<times> form" where
  "validateForm r f =
     (if trim (phoneNumber r) = []
      then (False, setErrorState ''Mobile number is required. Please enter your Iranian mobile number.''
                     validation False f)
      else if \<not> validateIranianPhone (phoneNumber r)
      then (False, setErrorState
                     ''Please enter a valid Iranian mobile number. Accepted formats: 09xxxxxxxxx, +989xxxxxxxxx, or 00989xxxxxxxxx''
                     validation False f)
      else (True, f))"

text \<open>The \<open>catch (err)\<close> block of \<open>handleSubmit\<close>.\<close>

definition handleSubmit_catch :: "form \<Rightarrow> thrown \<Rightarrow> form \<Rightarrow> form" where
  "handleSubmit_catch r err f =
     (let currentRetry = retryCount r + 1;
          f1 = f\<lparr>retryCount := currentRetry\<rparr>
      in if instanceof_ApiError err
         then
           if str_includes (error_message err) ''timeout''
           then setErrorState ''Request timed out. Please check your internet connection and try again.''
                  network True f1
           else if str_includes (error_message err) ''Network error''
           then setErrorState
                  ''Unable to connect to the server. Please check your internet connection and try again.''
                  network True f1
           else if (case error_status err of None \<Rightarrow> False | Some st \<Rightarrow> st \<noteq> 0 \<and> 500 \<le> st)
           then setErrorState ''Server is temporarily unavailable. Please try again in a few moments.''
                  api True f1
           else if (case error_status err of None \<Rightarrow> False | Some st \<Rightarrow> st \<noteq> 0 \<and> 400 \<le> st)
           then setErrorState ''There was a problem with your request. Please try again.'' api True f1
           else setErrorState (error_message err) api True f1
         else setErrorState
                ''An unexpected error occurred. Please try again or contact support if the problem persists.''
                general True f1)"

text \<open>\<open>handleSubmit\<close>, run to completion. The validation failure returns before the
  \<open>try\<close>, so its \<open>finally\<close> does not run; every other path ends with
  \<open>setIsLoading(false)\<close>.\<close>

definition handleSubmit :: "platform \<Rightarrow> form \<Rightarrow> attempt \<Rightarrow> world \<Rightarrow> world" where
  "handleSubmit P r a w =
     (let f1 = clearError (form w) in
      case validateForm r f1 of
        (False, f2) \<Rightarrow> w\<lparr>form := f2\<rparr>
      | (True, f2) \<Rightarrow>
          let f3 = f2\<lparr>isLoading := True\<rparr> in
          (case fetchRandomUser (net a) of
             Inr userData \<Rightarrow>
               (case saveUserToStorage P (Some userData) (store w) of
                  (Inl storageError, ls) \<Rightarrow>
                    w\<lparr>form := (setErrorState
                                  ''Unable to save login information. Please check your browser settings and try again.''
                                  storage True f3)\<lparr>isLoading := False\<rparr>,
                      store := ls\<rparr>
                | (Inr saved, ls) \<Rightarrow>
                    let f4 = f3\<lparr>isRedirecting := True\<rparr> in
                    if push_throws a
                    then w\<lparr>form := (setErrorState
                                       ''Login successful but unable to redirect. Please refresh the page.''
                                       redirect True f4)\<lparr>isRedirecting := False, isLoading := False\<rparr>,
                           store := ls\<rparr>
                    else w\<lparr>form := f4\<lparr>isLoading := False\<rparr>, store := ls,
                           pushed := pushed w @ [''/dashboard'']\<rparr>)
           | Inl err \<Rightarrow> w\<lparr>form := (handleSubmit_catch r err f3)\<lparr>isLoading := False\<rparr>\<rparr>))"

definition handleRetry :: "platform \<Rightarrow> form \<Rightarrow> attempt \<Rightarrow> world \<Rightarrow> world" where
  "handleRetry P r a w =
     (if (case error r of None \<Rightarrow> False | Some e \<Rightarrow> retryable e)
      then handleSubmit P r a (w\<lparr>form := clearError (form w)\<rparr>)
      else w)"

text \<open>What the rendered form offers: the "Try Again" button and the "Refresh Page"
  button.\<close>

definition retry_offered :: "form \<Rightarrow> bool" where
  "retry_offered f = ((case error f of None \<Rightarrow> False | Some e \<Rightarrow> retryable e) \<and> retryCount f < 3)"

definition reset_offered :: "form \<Rightarrow> bool" where
  "reset_offered f = (3 \<le> retryCount f \<and> (case error f of None \<Rightarrow> False | Some e \<Rightarrow> retryable e))"

text \<open>
  The user's actions. The input and the submit button are disabled while
  \<open>isLoading || isRedirecting\<close>, and the retry button exists only while it is offered;
  an action on a disabled or absent control changes nothing. The handlers attached to the
  controls are those of the latest render, so the closure is the current form state.
\<close>

datatype event = Change string | Submit attempt | Retry attempt

definition busy :: "form \<Rightarrow> bool" where
  "busy f = (isLoading f \<or> isRedirecting f)"

fun fire :: "platform \<Rightarrow> world \<Rightarrow> event \<Rightarrow> world" where
  "fire P w (Change val) =
     (if busy (form w) then w else w\<lparr>form := handlePhoneChange (form w) val (form w)\<rparr>)"
| "fire P w (Submit a) =
     (if busy (form w) then w else handleSubmit P (form w) a w)"
| "fire P w (Retry a) =
     (if busy (form w) \<or> \<not> retry_offered (form w) then w else handleRetry P (form w) a w)"

definition run :: "platform \<Rightarrow> world \<Rightarrow> event list \<Rightarrow> world" where
  "run P w evs = foldl (fire P) w evs"


section \<open>A reference platform\<close>

text \<open>
  A concrete platform on which the model runs: a JSON printer and a recursive-descent JSON
  reader for the values above, outside a test environment. A repeated key of an object
  text keeps its first position and its last value. The reader's fuel bounds the
  nesting and the number of elements; the length of the text is enough.

  The codec covers a fragment of the browser's JSON: numbers are integers (a fraction or
  an exponent is not read, and a leading zero is); the printer escapes the quote, the
  backslash, LF, CR and TAB and leaves the other control characters as they are; the
  reader knows these escapes and the escaped slash, and no \<open>\u\<close>, \<open>\b\<close> or \<open>\f\<close>.
  The properties of the store are stated for every platform; the reference platform
  serves the concrete evaluations.
\<close>

definition escape_char :: "char \<Rightarrow> string" where
  "escape_char c =
     (if c = CHR 0x22 then [CHR 0x5C, CHR 0x22]
      else if c = CHR 0x5C then [CHR 0x5C, CHR 0x5C]
      else if c = CHR 0x0A then [CHR 0x5C, CHR ''n'']
      else if c = CHR 0x0D then [CHR 0x5C, CHR ''r'']
      else if c = CHR 0x09 then [CHR 0x5C, CHR ''t'']
      else [c])"

definition quote :: "string \<Rightarrow> string" where
  "quote s = [CHR 0x22] @ concat (map escape_char s) @ [CHR 0x22]"

fun stringify :: "jsval \<Rightarrow> string" where
  "stringify JNull = ''null''"
| "stringify (JBool b) = (if b then ''true'' else ''false'')"
| "stringify (JNum n) = show_int n"
| "stringify (JStr s) = quote s"
| "stringify (JArr xs) = ''['' @ join '','' (map stringify xs) @ '']''"
| "stringify (JObj kvs) =
     ''{'' @ join '','' (map (\<lambda>kv. quote (fst kv) @ '':'' @ stringify (snd kv)) kvs) @ ''}''"

definition skip_ws :: "string \<Rightarrow> string" where
  "skip_ws s = dropWhile (\<lambda>c. c \<in> set [CHR 0x20, CHR 0x09, CHR 0x0A, CHR 0x0D]) s"

text \<open>The characters of a string literal after its opening quote, up to the closing one.\<close>

fun read_chars :: "string \<Rightarrow> (string \<times> string) option" where
  "read_chars [] = None"
| "read_chars [c] = (if c = CHR 0x22 then Some ([], []) else None)"
| "read_chars (c # d # cs) =
     (if c = CHR 0x22 then Some ([], d # cs)
      else if c = CHR 0x5C then
        (let e = (if d = CHR ''n'' then Some (CHR 0x0A)
                  else if d = CHR ''r'' then Some (CHR 0x0D)
                  else if d = CHR ''t'' then Some (CHR 0x09)
                  else if d \<in> set [CHR 0x22, CHR 0x5C, CHR ''/''] then Some d
                  else None)
         in case e of
              None \<Rightarrow> None
            | Some x \<Rightarrow> (case read_chars cs of None \<Rightarrow> None | Some (t, rest) \<Rightarrow> Some (x # t, rest)))
      else (case read_chars (d # cs) of None \<Rightarrow> None | Some (t, rest) \<Rightarrow> Some (c # t, rest)))"

definition digit_value :: "char \<Rightarrow> nat" where
  "digit_value c = length (takeWhile (\<lambda>d. d \<noteq> c) ''0123456789'')"

definition read_nat :: "string \<Rightarrow> nat" where
  "read_nat ds = foldl (\<lambda>acc d. 10 * acc + digit_value d) 0 ds"

definition read_number :: "string \<Rightarrow> (jsval \<times> string) option" where
  "read_number s =
     (let neg = startsWith s ''-'';
          t = (if neg then drop 1 s else s);
          ds = takeWhile is_digit t
      in if ds = [] then None
         else Some (JNum (if neg then - int (read_nat ds) else int (read_nat ds)), dropWhile is_digit t))"

fun read_value :: "nat \<Rightarrow> string \<Rightarrow> (jsval \<times> string) option"
  and read_elements :: "nat \<Rightarrow> string \<Rightarrow> (jsval list \<times> string) option"
  and read_members :: "nat \<Rightarrow> string \<Rightarrow> ((string \<times> jsval) list \<times> string) option" where
  "read_value 0 s = None"
| "read_value (Suc n) s =
     (let t = skip_ws s in
      if startsWith t ''null'' then Some (JNull, drop 4 t)
      else if startsWith t ''true'' then Some (JBool True, drop 4 t)
      else if startsWith t ''false'' then Some (JBool False, drop 5 t)
      else if startsWith t [CHR 0x22] then
        (case read_chars (drop 1 t) of None \<Rightarrow> None | Some (str, rest) \<Rightarrow> Some (JStr str, rest))
      else if startsWith t ''['' then
        (if startsWith (skip_ws (drop 1 t)) '']'' then Some (JArr [], drop 1 (skip_ws (drop 1 t)))
         else case read_elements n (drop 1 t) of None \<Rightarrow> None | Some (xs, rest) \<Rightarrow> Some (JArr xs, rest))
      else if startsWith t ''{'' then
        (if startsWith (skip_ws (drop 1 t)) ''}'' then Some (JObj [], drop 1 (skip_ws (drop 1 t)))
         else case read_members n (drop 1 t) of
                None \<Rightarrow> None
              | Some (kvs, rest) \<Rightarrow> Some (JObj (foldl (\<lambda>obj kv. assign (fst kv) (snd kv) obj) [] kvs), rest))
      else read_number t)"
| "read_elements 0 s = None"
| "read_elements (Suc n) s =
     (case read_value n s of
        None \<Rightarrow> None
      | Some (x, rest) \<Rightarrow>
          let t = skip_ws rest in
          if startsWith t '','' then
            (case read_elements n (drop 1 t) of None \<Rightarrow> None | Some (xs, rest') \<Rightarrow> Some (x # xs, rest'))
          else if startsWith t '']'' then Some ([x], drop 1 t)
          else None)"
| "read_members 0 s = None"
| "read_members (Suc n) s =
     (let t = skip_ws s in
      if \<not> startsWith t [CHR 0x22] then None
      else
        (case read_chars (drop 1 t) of
           None \<Rightarrow> None
         | Some (k, rest) \<Rightarrow>
             let t1 = skip_ws rest in
             if \<not> startsWith t1 '':'' then None
             else
               (case read_value n (drop 1 t1) of
                  None \<Rightarrow> None
                | Some (v, rest1) \<Rightarrow>
                    let t2 = skip_ws rest1 in
                    if startsWith t2 '','' then
                      (case read_members n (drop 1 t2) of
                         None \<Rightarrow> None
                       | Some (kvs, rest2) \<Rightarrow> Some ((k, v) # kvs, rest2))
                    else if startsWith t2 ''}'' then Some ([(k, v)], drop 1 t2)
                    else None)))"

definition parse :: "string \<Rightarrow> thrown + jsval" where
  "parse s =
     (case read_value (length s) s of
        None \<Rightarrow> Inl (Error ''SyntaxError'' ''Unexpected token in JSON'')
      | Some (v, rest) \<Rightarrow>
          if skip_ws rest = [] then Inr v
          else Inl (Error ''SyntaxError'' ''Unexpected token in JSON''))"

definition reference_platform :: platform where
  "reference_platform = \<lparr>JSON_stringify = stringify, JSON_parse = parse, NODE_ENV = ''production''\<rparr>"

text \<open>A working store of five megabytes with nothing in it.\<close>

definition empty_store :: localStorage where
  "empty_store = \<lparr>available = Working, quota = 5242880, items = Map.empty\<rparr>"


text \<open>
  A value is well formed when no object lists a key twice, as no run-time object does.
  \<open>fuel\<close> bounds what the reader needs for the text of a value; \<open>ends_value\<close> and
  \<open>starts_value\<close> describe what may follow and what begins the text of a value.
\<close>

fun wf_json :: "jsval \<Rightarrow> bool" where
  "wf_json (JArr xs) = list_all wf_json xs"
| "wf_json (JObj kvs) = (distinct (map fst kvs) \<and> list_all (\<lambda>kv. wf_json (snd kv)) kvs)"
| "wf_json v = True"

fun fuel :: "jsval \<Rightarrow> nat" where
  "fuel (JArr xs) = 1 + sum_list (map fuel xs) + length xs"
| "fuel (JObj kvs) = 1 + sum_list (map (\<lambda>kv. fuel (snd kv)) kvs) + length kvs"
| "fuel v = 1"

definition ends_value :: "string \<Rightarrow> bool" where
  "ends_value rest = (rest = [] \<or> hd rest \<in> set '',]}'')"

definition starts_value :: "string \<Rightarrow> bool" where
  "starts_value s = (s \<noteq> [] \<and> hd s \<in> set (CHR 0x22 # ''ntf[{-0123456789''))"

definition member_text :: "string \<times> jsval \<Rightarrow> string" where
  "member_text kv = quote (fst kv) @ '':'' @ stringify (snd kv)"

section \<open>Specification-side definitions\<close>

text \<open>The three recognised shapes of the data model: a fixed prefix followed by exactly
  nine decimal digits.\<close>

definition shape :: "string \<Rightarrow> string \<Rightarrow> bool" where
  "shape pre s =
     (length s = length pre + 9 \<and> take (length pre) s = pre \<and> list_all is_digit (drop (length pre) s))"

definition exactly_one :: "bool list \<Rightarrow> bool" where
  "exactly_one bs = (length (filter id bs) = 1)"

text \<open>The UserRecord invariant: all six leaf fields present and of string type.\<close>

definition leaf :: "jsval \<Rightarrow> string \<Rightarrow> string \<Rightarrow> jsval option" where
  "leaf u a b = get (get (Some u) a) b"

definition UserRecord_invariant :: "jsval \<Rightarrow> bool" where
  "UserRecord_invariant u =
     (typeof_string (leaf u ''name'' ''first'')
      \<and> typeof_string (leaf u ''name'' ''last'')
      \<and> typeof_string (get (Some u) ''email'')
      \<and> typeof_string (leaf u ''picture'' ''large'')
      \<and> typeof_string (leaf u ''picture'' ''medium'')
      \<and> typeof_string (leaf u ''picture'' ''thumbnail''))"

text \<open>Stored content that fails to parse, or parses to a value failing the invariant.\<close>

definition corrupt :: "platform \<Rightarrow> string \<Rightarrow> bool" where
  "corrupt P c = (case JSON_parse P c of Inl e \<Rightarrow> True | Inr v \<Rightarrow> \<not> UserRecord_invariant v)"

text \<open>The platform's JSON text of \<open>u\<close> is not empty and parses back to \<open>u\<close>.\<close>

definition json_faithful :: "platform \<Rightarrow> jsval \<Rightarrow> bool" where
  "json_faithful P u = (JSON_stringify P u \<noteq> [] \<and> JSON_parse P (JSON_stringify P u) = Inr u)"

text \<open>An attempt whose identity fetch fails, and a form presenting a retryable error.\<close>

definition fetch_fails :: "attempt \<Rightarrow> bool" where
  "fetch_fails a = (case fetchRandomUser (net a) of Inl e \<Rightarrow> True | Inr u \<Rightarrow> False)"

definition has_retryable_error :: "form \<Rightarrow> bool" where
  "has_retryable_error f = (case error f of None \<Rightarrow> False | Some e \<Rightarrow> retryable e)"

section \<open>Concrete inputs\<close>

definition john :: jsval where
  "john = JObj
     [(''name'', JObj [(''first'', JStr ''John''), (''last'', JStr ''Doe'')]),
      (''email'', JStr ''john@example.com''),
      (''picture'', JObj [(''large'', JStr ''l.jpg''), (''medium'', JStr ''m.jpg''),
                          (''thumbnail'', JStr ''t.jpg'')])]"

text \<open>The same record without \<open>name.last\<close>.\<close>

definition john_no_last :: jsval where
  "john_no_last = JObj
     [(''name'', JObj [(''first'', JStr ''John'')]),
      (''email'', JStr ''john@example.com''),
      (''picture'', JObj [(''large'', JStr ''l.jpg''), (''medium'', JStr ''m.jpg''),
                          (''thumbnail'', JStr ''t.jpg'')])]"

text \<open>A network on which the identity endpoint answers 200 with the one record \<open>u\<close> and
  every other URL answers 200; and one on which every request answers 500.\<close>

definition serve :: "jsval \<Rightarrow> network" where
  "serve u url =
     (if url = RANDOM_USER_URL then Inr (Response True 200 (Inr (JObj [(''results'', JArr [u])])))
      else Inr (Response True 200 (Inr JNull)))"

definition server_error :: network where
  "server_error url = Inr (Response False 500 (Inr JNull))"

text \<open>The initial values of the \<open>useState\<close> cells.\<close>

definition initial_form :: form where
  "initial_form =
     \<lparr>phoneNumber = [], error = None, isLoading = False, isRedirecting = False, retryCount = 0\<rparr>"

definition storage_error :: ErrorState where
  "storage_error =
     \<lparr>message = ''Unable to save login information. Please check your browser settings and try again.'',
      type = storage, retryable = True\<rparr>"

text \<open>What \<open>fetchRandomUser\<close> returns for the record without \<open>name.last\<close>: the avatars
  generated for the seed \<open>John undefined\<close>, in place of the pictures.\<close>

definition no_last_avatars :: avatars where
  "no_last_avatars =
     \<lparr>large = ''https://api.dicebear.com/8.x/avataaars/png?seed=John+undefined&top=hijab&topColor=262e33%2C65c9ff%2Cf88c49%2Cff5722%2Cff9800%2Cffc107&backgroundColor=f3f4f6&clothingGraphic=none&eyebrows=default&eyes=default&facialHair=none&mouth=default&skinColor=fdbcb4%2Cedb98a%2Cfd9841%2Cf8d25c%2Cf1c27d%2Cffdbac&size=256'',
      medium = ''https://api.dicebear.com/8.x/avataaars/png?seed=John+undefined&top=hijab&topColor=262e33%2C65c9ff%2Cf88c49%2Cff5722%2Cff9800%2Cffc107&backgroundColor=f3f4f6&clothingGraphic=none&eyebrows=default&eyes=default&facialHair=none&mouth=default&skinColor=fdbcb4%2Cedb98a%2Cfd9841%2Cf8d25c%2Cf1c27d%2Cffdbac&size=128'',
      thumbnail = ''https://api.dicebear.com/8.x/avataaars/png?seed=John+undefined&top=hijab&topColor=262e33%2C65c9ff%2Cf88c49%2Cff5722%2Cff9800%2Cffc107&backgroundColor=f3f4f6&clothingGraphic=none&eyebrows=default&eyes=default&facialHair=none&mouth=default&skinColor=fdbcb4%2Cedb98a%2Cfd9841%2Cf8d25c%2Cf1c27d%2Cffdbac&size=64''\<rparr>"

definition fetched_no_last :: jsval where
  "fetched_no_last = JObj
     [(''name'', JObj [(''first'', JStr ''John'')]),
      (''email'', JStr ''john@example.com''),
      (''picture'', avatars_object no_last_avatars)]"

text \<open>The empty store holding the text \<open>c\<close> under the session key, and a working store
  whose quota is used up.\<close>

definition store_holding :: "string \<Rightarrow> localStorage" where
  "store_holding c = empty_store\<lparr>items := [USER_DATA \<mapsto> c]\<rparr>"

definition full_store :: localStorage where
  "full_store = \<lparr>available = Working, quota = 0, items = Map.empty\<rparr>"

text \<open>The form after the user has typed a valid number, over a given store.\<close>

definition typed_world :: "localStorage \<Rightarrow> world" where
  "typed_world ls = \<lparr>form = initial_form\<lparr>phoneNumber := ''09123456789''\<rparr>, store = ls, pushed = []\<rparr>"

text \<open>An attempt on which the fetch succeeds and navigation works, and one on which the
  endpoint answers 500.\<close>

definition ok_attempt :: attempt where
  "ok_attempt = \<lparr>net = serve john, push_throws = False\<rparr>"

definition failing_attempt :: attempt where
  "failing_attempt = \<lparr>net = server_error, push_throws = False\<rparr>"

text \<open>The form presenting the storage error, with the counter at 0.\<close>

definition storage_failed_form :: form where
  "storage_failed_form =
     \<lparr>phoneNumber = ''09123456789'', error = Some storage_error, isLoading = False,
      isRedirecting = False, retryCount = 0\<rparr>"

section \<open>Properties of the phone validator\<close>

lemma test_digits: "test [(Digit, n)] s = (length s = n \<and> list_all is_digit s)"
proof (induction n arbitrary: s)
  case 0
  show ?case by auto
next
  case (Suc n)
  show ?case by (cases s) (auto simp: Suc)
qed

lemma test_lit: "test ((Lit l, Suc 0) # p) s = (\<exists>cs. s = l # cs \<and> test p cs)"
  by (cases s) auto

lemma test_lits:
  "test (map (\<lambda>c. (Lit c, Suc 0)) pre @ p) s = (take (length pre) s = pre \<and> test p (drop (length pre) s))"
proof (induction pre arbitrary: s)
  case Nil
  show ?case by simp
next
  case (Cons l pre)
  show ?case by (cases s) (auto simp: Cons test_lit)
qed

lemma test_shape:
  "test (map (\<lambda>c. (Lit c, Suc 0)) pre @ [(Digit, 9)]) s = shape pre s"
  unfolding test_lits test_digits shape_def
  by (cases "length pre \<le> length s") auto

lemma test_STANDARD: "test STANDARD s = shape ''09'' s"
  using test_shape [of "''09''" s] by (simp add: STANDARD_def)

lemma test_INTERNATIONAL: "test INTERNATIONAL s = shape ''+989'' s"
  using test_shape [of "''+989''" s] by (simp add: INTERNATIONAL_def)

lemma test_COUNTRY_CODE: "test COUNTRY_CODE s = shape ''00989'' s"
  using test_shape [of "''00989''" s] by (simp add: COUNTRY_CODE_def)

lemma trim_Nil: "trim [] = []"
  by (simp add: trim_def)

lemma not_shape_Nil: "\<not> shape pre []"
  by (simp add: shape_def)

lemma shape_iff: "shape pre s = (\<exists>ds. s = pre @ ds \<and> length ds = 9 \<and> list_all is_digit ds)"
proof
  assume h: "shape pre s"
  then have "s = pre @ drop (length pre) s"
    by (metis append_take_drop_id shape_def)
  moreover from h have "length (drop (length pre) s) = 9" "list_all is_digit (drop (length pre) s)"
    by (simp_all add: shape_def)
  ultimately show "\<exists>ds. s = pre @ ds \<and> length ds = 9 \<and> list_all is_digit ds" by blast
next
  assume "\<exists>ds. s = pre @ ds \<and> length ds = 9 \<and> list_all is_digit ds"
  then show "shape pre s" by (auto simp: shape_def)
qed

lemma shapes_exclusive:
  "\<not> (shape ''09'' s \<and> shape ''+989'' s)"
  "\<not> (shape ''09'' s \<and> shape ''00989'' s)"
  "\<not> (shape ''+989'' s \<and> shape ''00989'' s)"
  by (auto simp: shape_iff)

lemma validate_iff:
  "validateIranianPhone s =
     (shape ''09'' (trim s) \<or> shape ''+989'' (trim s) \<or> shape ''00989'' (trim s))"
  by (auto simp: validateIranianPhone_def PHONE_PATTERNS_def test_STANDARD test_INTERNATIONAL
      test_COUNTRY_CODE trim_Nil not_shape_Nil)

lemma trim_id:
  assumes ne: "s \<noteq> []" and h: "\<not> is_whitespace (hd s)" and l: "\<not> is_whitespace (last s)"
  shows "trim s = s"
proof -
  from ne h have 1: "dropWhile is_whitespace s = s" by (cases s) auto
  from ne l have 2: "dropWhile is_whitespace (rev s) = rev s"
    by (cases "rev s") (auto simp: last_rev hd_rev)
  show ?thesis by (simp add: trim_def 1 2)
qed

lemma digit_not_whitespace: "is_digit c \<Longrightarrow> \<not> is_whitespace c"
  by (auto simp: is_digit_def is_whitespace_def)

lemma trim_shape_local:
  assumes "shape ''09'' s"
  shows "trim s = s"
proof -
  from assms obtain ds where s: "s = ''09'' @ ds" and len: "length ds = 9" and dig: "list_all is_digit ds"
    by (auto simp: shape_iff)
  from len have ne: "ds \<noteq> []" by auto
  then have "last ds \<in> set ds" by (rule last_in_set)
  with dig have "is_digit (last ds)" by (simp add: list_all_iff)
  then have "\<not> is_whitespace (last ds)" by (rule digit_not_whitespace)
  with ne s have "\<not> is_whitespace (last s)" by simp
  moreover from s have "\<not> is_whitespace (hd s)" by (simp add: is_whitespace_def)
  moreover from s have "s \<noteq> []" by simp
  ultimately show ?thesis by (simp add: trim_id)
qed

lemma normalize_local: "shape ''09'' (trim x) \<Longrightarrow> normalizeIranianPhone x = trim x"
  by (auto simp: normalizeIranianPhone_def validate_iff startsWith_def shape_iff)

lemma normalize_plus: "shape ''+989'' (trim x) \<Longrightarrow> normalizeIranianPhone x = ''0'' @ drop 3 (trim x)"
  by (auto simp: normalizeIranianPhone_def validate_iff startsWith_def slice_def shape_iff)

lemma normalize_zero: "shape ''00989'' (trim x) \<Longrightarrow> normalizeIranianPhone x = ''0'' @ drop 4 (trim x)"
  by (auto simp: normalizeIranianPhone_def validate_iff startsWith_def slice_def shape_iff)

lemma normalize_invalid: "\<not> validateIranianPhone x \<Longrightarrow> normalizeIranianPhone x = x"
  by (simp add: normalizeIranianPhone_def)

lemma shape_plus_to_local: "shape ''+989'' t \<Longrightarrow> shape ''09'' (''0'' @ drop 3 t)"
  by (auto simp: shape_iff)

lemma shape_zero_to_local: "shape ''00989'' t \<Longrightarrow> shape ''09'' (''0'' @ drop 4 t)"
  by (auto simp: shape_iff)

lemma normalize_valid_local: "validateIranianPhone x \<Longrightarrow> shape ''09'' (normalizeIranianPhone x)"
  unfolding validate_iff
  using shape_plus_to_local [of "trim x"] shape_zero_to_local [of "trim x"]
  by (auto simp: normalize_local normalize_plus normalize_zero)

lemmas phone_eval = shape_def trim_def is_whitespace_def is_digit_def exactly_one_def

text \<open>
  C5. \<open>validateIranianPhone s\<close> is true exactly when the trimmed input has exactly one of
  the three shapes \<open>09\<close>, \<open>+989\<close>, \<open>00989\<close> followed by nine digits, and false for every
  other string; the empty string is rejected. The function is total: no input makes it
  throw.
\<close>

theorem validate_exactly_one_shape:
  "validateIranianPhone s =
     exactly_one [shape ''09'' (trim s), shape ''+989'' (trim s), shape ''00989'' (trim s)]
   \<and> validateIranianPhone [] = False"
  using shapes_exclusive [of "trim s"]
  by (auto simp: validate_iff exactly_one_def trim_Nil not_shape_Nil)

theorem validate_exactly_one_shape_witness:
  "validateIranianPhone '' +989123456789 '' = True
   \<and> exactly_one [shape ''09'' (trim '' +989123456789 ''), shape ''+989'' (trim '' +989123456789 ''),
        shape ''00989'' (trim '' +989123456789 '')]
   \<and> validateIranianPhone ''0912345678'' = False
   \<and> \<not> exactly_one [shape ''09'' (trim ''0912345678''), shape ''+989'' (trim ''0912345678''),
        shape ''00989'' (trim ''0912345678'')]"
  using validate_exactly_one_shape [of "'' +989123456789 ''"] validate_exactly_one_shape [of "''0912345678''"]
  by (simp add: phone_eval)

text \<open>
  C6, as stated, fails on a valid local number with surrounding white space: the result
  is the trimmed number, not the input.
\<close>

theorem normalize_local_unchanged_counterexample:
  "validateIranianPhone '' 09123456789'' \<and> shape ''09'' (trim '' 09123456789'')
   \<and> normalizeIranianPhone '' 09123456789'' \<noteq> '' 09123456789''"
  by (simp add: normalize_local validate_iff phone_eval)

text \<open>
  C6, amended. An input that does not validate is returned unchanged. A valid input whose
  trimmed form is local is returned trimmed (so unchanged exactly when it carries no
  surrounding white space). A valid input whose trimmed form is international-plus or
  international-zero is returned as its trimmed form with the prefix \<open>+98\<close>, respectively
  \<open>0098\<close>, replaced by a single \<open>0\<close>.
\<close>

theorem normalize_cases:
  "(\<not> validateIranianPhone x \<longrightarrow> normalizeIranianPhone x = x)
   \<and> (shape ''09'' (trim x) \<longrightarrow> normalizeIranianPhone x = trim x)
   \<and> (shape ''+989'' (trim x) \<longrightarrow>
        (\<exists>rest. trim x = ''+98'' @ rest \<and> normalizeIranianPhone x = ''0'' @ rest))
   \<and> (shape ''00989'' (trim x) \<longrightarrow>
        (\<exists>rest. trim x = ''0098'' @ rest \<and> normalizeIranianPhone x = ''0'' @ rest))"
proof -
  have "shape ''+989'' (trim x) \<Longrightarrow> trim x = ''+98'' @ drop 3 (trim x)"
    by (auto simp: shape_iff)
  moreover have "shape ''00989'' (trim x) \<Longrightarrow> trim x = ''0098'' @ drop 4 (trim x)"
    by (auto simp: shape_iff)
  ultimately show ?thesis
    using normalize_plus [of x] normalize_zero [of x]
    by (auto simp: normalize_invalid normalize_local)
qed

theorem normalize_cases_witness:
  "\<not> validateIranianPhone ''invalid'' \<and> normalizeIranianPhone ''invalid'' = ''invalid''
   \<and> shape ''09'' (trim '' 09123456789'') \<and> normalizeIranianPhone '' 09123456789'' = ''09123456789''
   \<and> shape ''+989'' (trim ''+989123456789'') \<and> normalizeIranianPhone ''+989123456789'' = ''09123456789''
   \<and> shape ''00989'' (trim ''00989123456789'') \<and> normalizeIranianPhone ''00989123456789'' = ''09123456789''"
  using normalize_cases [of "''invalid''"] normalize_cases [of "'' 09123456789''"]
    normalize_cases [of "''+989123456789''"] normalize_cases [of "''00989123456789''"]
  by (simp add: validate_iff phone_eval)

text \<open>
  C7. \<open>normalizeIranianPhone\<close> is idempotent on every valid input.
\<close>

theorem normalize_idempotent:
  assumes "validateIranianPhone x"
  shows "normalizeIranianPhone (normalizeIranianPhone x) = normalizeIranianPhone x"
proof -
  from assms have l: "shape ''09'' (normalizeIranianPhone x)" by (rule normalize_valid_local)
  then have t: "trim (normalizeIranianPhone x) = normalizeIranianPhone x" by (rule trim_shape_local)
  from l t show ?thesis using normalize_local [of "normalizeIranianPhone x"] by simp
qed

theorem normalize_idempotent_witness:
  "validateIranianPhone '' +989123456789 ''
   \<and> normalizeIranianPhone (normalizeIranianPhone '' +989123456789 '') = normalizeIranianPhone '' +989123456789 ''
   \<and> normalizeIranianPhone '' +989123456789 '' = ''09123456789''"
proof -
  have h: "validateIranianPhone '' +989123456789 ''" by (simp add: validate_iff phone_eval)
  have n: "normalizeIranianPhone '' +989123456789 '' = ''09123456789''"
    by (simp add: normalize_plus phone_eval)
  show ?thesis using h n normalize_idempotent [OF h] by simp
qed

section \<open>Properties of the reference platform\<close>

text \<open>The reader inverts the printer on every well-formed value.\<close>

lemma startsWith_hd: "s \<noteq> [] \<Longrightarrow> hd s \<noteq> c \<Longrightarrow> \<not> startsWith s (c # p)"
  by (cases s) (auto simp: startsWith_def)

lemma startsWith_append: "startsWith (p @ s) p"
  by (simp add: startsWith_def)

lemma read_chars_step:
  assumes "read_chars t = Some (s, rest)"
  shows "read_chars (escape_char c @ t) = Some (c # s, rest)"
proof -
  from assms obtain d cs where t: "t = d # cs" by (cases t) auto
  show ?thesis using assms unfolding t by (auto simp: escape_char_def)
qed

lemma read_chars_quote:
  "read_chars (concat (map escape_char s) @ CHR 0x22 # rest) = Some (s, rest)"
proof (induction s)
  case Nil
  show ?case by (cases rest) simp_all
next
  case (Cons c s)
  show ?case using read_chars_step [OF Cons, of c] by simp
qed

lemma digit_cases: "(d::nat) < 10 \<Longrightarrow> d = 0 \<or> d = 1 \<or> d = 2 \<or> d = 3 \<or> d = 4 \<or> d = 5 \<or> d = 6 \<or> d = 7 \<or> d = 8 \<or> d = 9"
  by arith

lemma digit_char: "(d::nat) < 10 \<Longrightarrow> is_digit (''0123456789'' ! d)"
  using digit_cases [of d] by (auto simp: is_digit_def)

lemma digit_value_char: "(d::nat) < 10 \<Longrightarrow> digit_value (''0123456789'' ! d) = d"
  using digit_cases [of d] by (auto simp: digit_value_def)

lemma show_nat_digits: "list_all is_digit (show_nat n)"
proof (induction n rule: show_nat.induct)
  case (1 n)
  show ?case
    by (subst show_nat.simps) (use 1 in \<open>auto simp: digit_char\<close>)
qed

lemma show_nat_nonempty: "show_nat n \<noteq> []"
  by (subst show_nat.simps) simp

lemma read_nat_snoc: "read_nat (ds @ [d]) = 10 * read_nat ds + digit_value d"
  by (simp add: read_nat_def)

lemma read_nat_show: "read_nat (show_nat n) = n"
proof (induction n rule: show_nat.induct)
  case (1 n)
  show ?case
  proof (cases "n < 10")
    case True
    then show ?thesis by (subst show_nat.simps) (simp add: read_nat_def digit_value_char)
  next
    case False
    then have "read_nat (show_nat (n div 10)) = n div 10" using 1 by simp
    then show ?thesis using False
      by (subst show_nat.simps) (simp add: read_nat_snoc digit_value_char)
  qed
qed

lemma takeWhile_digits:
  assumes "list_all is_digit ds" "rest = [] \<or> \<not> is_digit (hd rest)"
  shows "takeWhile is_digit (ds @ rest) = ds" "dropWhile is_digit (ds @ rest) = rest"
proof -
  from assms(2) have t: "takeWhile is_digit rest = []" and d: "dropWhile is_digit rest = rest"
    by (cases rest; auto)+
  from assms(1) show "takeWhile is_digit (ds @ rest) = ds" by (induction ds) (auto simp: t)
  from assms(1) show "dropWhile is_digit (ds @ rest) = rest" by (induction ds) (auto simp: d)
qed

lemma ends_value_not_digit: "ends_value rest \<Longrightarrow> rest = [] \<or> \<not> is_digit (hd rest)"
  by (auto simp: ends_value_def is_digit_def)

lemma show_nat_no_minus: "\<not> startsWith (show_nat n @ rest) ''-''"
proof -
  have "show_nat n \<noteq> []" by (rule show_nat_nonempty)
  moreover have "is_digit (hd (show_nat n))"
    using show_nat_digits [of n] calculation by (cases "show_nat n") auto
  ultimately show ?thesis
    by (intro startsWith_hd) (auto simp: is_digit_def)
qed

lemma read_number_show:
  assumes "ends_value rest"
  shows "read_number (show_int i @ rest) = Some (JNum i, rest)"
proof (cases "i < 0")
  case True
  have "startsWith (show_int i @ rest) ''-''" using True by (simp add: show_int_def startsWith_def)
  then show ?thesis
    using True takeWhile_digits [OF show_nat_digits ends_value_not_digit [OF assms], of "nat (- i)"]
    by (simp add: read_number_def show_int_def Let_def show_nat_nonempty read_nat_show)
next
  case False
  then show ?thesis
    using takeWhile_digits [OF show_nat_digits ends_value_not_digit [OF assms], of "nat i"]
      show_nat_no_minus [of "nat i" rest]
    by (simp add: read_number_def show_int_def Let_def show_nat_nonempty read_nat_show)
qed

lemma startsWith_Cons [simp]: "startsWith (c # s) (d # p) = (c = d \<and> startsWith s p)"
  by (auto simp: startsWith_def)

lemma startsWith_Nil [simp]: "startsWith s [] = True" "startsWith [] (d # p) = False"
  by (auto simp: startsWith_def)

lemma skip_ws_id: "s = [] \<or> hd s \<notin> set [CHR 0x20, CHR 0x09, CHR 0x0A, CHR 0x0D] \<Longrightarrow> skip_ws s = s"
  by (cases s) (auto simp: skip_ws_def)

lemma skip_ws_ends: "ends_value rest \<Longrightarrow> skip_ws rest = rest"
  by (rule skip_ws_id) (auto simp: ends_value_def)

lemma skip_ws_starts: "starts_value s \<Longrightarrow> skip_ws (s @ t) = s @ t"
  by (rule skip_ws_id) (auto simp: starts_value_def)

lemma hd_show_int: "show_int i \<noteq> [] \<and> hd (show_int i) \<in> set ''-0123456789''"
proof (cases "i < 0")
  case True
  then show ?thesis by (simp add: show_int_def)
next
  case False
  have "show_nat (nat i) \<noteq> []" by (rule show_nat_nonempty)
  moreover have "is_digit (hd (show_nat (nat i)))"
    using show_nat_digits [of "nat i"] calculation by (cases "show_nat (nat i)") auto
  ultimately show ?thesis using False by (auto simp: show_int_def is_digit_def)
qed

lemma starts_value_stringify: "starts_value (stringify v)"
proof (cases v)
  case (JNum i)
  then show ?thesis using hd_show_int [of i] by (auto simp: starts_value_def)
qed (auto simp: starts_value_def quote_def)

lemma starts_value_append: "starts_value s \<Longrightarrow> starts_value (s @ t)"
  by (auto simp: starts_value_def)

lemma rv_number:
  assumes "s \<noteq> []" "hd s \<in> set ''-0123456789''"
  shows "read_value (Suc n) s = read_number s"
proof -
  from assms obtain c cs where s: "s = c # cs" and c: "c \<in> set ''-0123456789''" by (cases s) auto
  have "skip_ws s = s" using c unfolding s by (intro skip_ws_id) auto
  then show ?thesis using c unfolding s by (auto simp: Let_def)
qed

lemma rv_string:
  "read_value (Suc n) (CHR 0x22 # s) =
     (case read_chars s of None \<Rightarrow> None | Some (str, rest) \<Rightarrow> Some (JStr str, rest))"
proof -
  have "skip_ws (CHR 0x22 # s) = CHR 0x22 # s" by (intro skip_ws_id) auto
  then show ?thesis by (simp add: Let_def)
qed

lemma rv_array_empty: "read_value (Suc n) (''[]'' @ rest) = Some (JArr [], rest)"
proof -
  have "skip_ws (''[]'' @ rest) = ''[]'' @ rest" "skip_ws ('']'' @ rest) = '']'' @ rest"
    by (intro skip_ws_id; simp)+
  then show ?thesis by (simp add: Let_def)
qed

lemma rv_array:
  assumes "starts_value s"
  shows "read_value (Suc n) (''['' @ s) =
     (case read_elements n s of None \<Rightarrow> None | Some (xs, rest) \<Rightarrow> Some (JArr xs, rest))"
proof -
  have 1: "skip_ws (''['' @ s) = ''['' @ s" by (intro skip_ws_id) simp
  have 2: "skip_ws s = s" using skip_ws_starts [OF assms, of "[]"] by simp
  have 3: "\<not> startsWith s '']''" using assms by (intro startsWith_hd) (auto simp: starts_value_def)
  show ?thesis using 1 2 3 by (simp add: Let_def)
qed

lemma rv_object_empty: "read_value (Suc n) (''{}'' @ rest) = Some (JObj [], rest)"
proof -
  have "skip_ws (''{}'' @ rest) = ''{}'' @ rest" "skip_ws (''}'' @ rest) = ''}'' @ rest"
    by (intro skip_ws_id; simp)+
  then show ?thesis by (simp add: Let_def)
qed

lemma rv_object:
  "read_value (Suc n) (''{'' @ CHR 0x22 # s) =
     (case read_members n (CHR 0x22 # s) of
        None \<Rightarrow> None
      | Some (kvs, rest) \<Rightarrow> Some (JObj (foldl (\<lambda>obj kv. assign (fst kv) (snd kv) obj) [] kvs), rest))"
proof -
  have 1: "skip_ws (''{'' @ CHR 0x22 # s) = ''{'' @ CHR 0x22 # s" by (intro skip_ws_id) simp
  have 2: "skip_ws (CHR 0x22 # s) = CHR 0x22 # s" by (intro skip_ws_id) simp
  show ?thesis using 1 2 by (simp add: Let_def)
qed

lemma read_elements_join:
  assumes ih: "\<And>x n rest. x \<in> set xs \<Longrightarrow> fuel x \<le> n \<Longrightarrow> ends_value rest
      \<Longrightarrow> read_value n (stringify x @ rest) = Some (x, rest)"
    and ne: "xs \<noteq> []" and n: "sum_list (map fuel xs) + length xs \<le> n"
  shows "read_elements n (join '','' (map stringify xs) @ '']'' @ rest) = Some (xs, rest)"
  using assms
proof (induction xs arbitrary: n)
  case Nil
  then show ?case by simp
next
  case (Cons x xs)
  from Cons.prems(3) obtain m where m: "n = Suc m" by (cases n) auto
  show ?case
  proof (cases xs)
    case Nil
    have e: "ends_value ('']'' @ rest)" by (simp add: ends_value_def)
    have "read_value m (stringify x @ '']'' @ rest) = Some (x, '']'' @ rest)"
      using Cons.prems(1) [of x m "'']'' @ rest"] e Cons.prems(3) m Nil by simp
    then show ?thesis using Nil m skip_ws_ends [OF e] by (simp add: Let_def)
  next
    case (Cons y ys)
    let ?tail = "'','' @ join '','' (map stringify xs) @ '']'' @ rest"
    have e: "ends_value ?tail" by (simp add: ends_value_def)
    have 1: "read_value m (stringify x @ ?tail) = Some (x, ?tail)"
      using Cons.prems(1) [of x m ?tail] e Cons.prems(3) m by simp
    have 2: "read_elements m (join '','' (map stringify xs) @ '']'' @ rest) = Some (xs, rest)"
      using Cons.IH [of m] Cons.prems(1) Cons.prems(3) m Cons by simp
    show ?thesis using Cons m 1 2 skip_ws_ends [OF e] by (simp add: Let_def)
  qed
qed

lemma rm_step:
  assumes v: "read_value m (stringify v @ tail) = Some (v, tail)" and e: "ends_value tail"
  shows "read_members (Suc m) (quote k @ '':'' @ stringify v @ tail) =
     (if startsWith tail '','' then
        (case read_members m (drop 1 tail) of
           None \<Rightarrow> None
         | Some (kvs, rest2) \<Rightarrow> Some ((k, v) # kvs, rest2))
      else if startsWith tail ''}'' then Some ([(k, v)], drop 1 tail)
      else None)"
proof -
  let ?s = "quote k @ '':'' @ stringify v @ tail"
  have 1: "skip_ws ?s = ?s" by (intro skip_ws_id) (simp add: quote_def)
  have 2: "startsWith ?s [CHR 0x22]" by (simp add: quote_def)
  have 3: "read_chars (drop 1 ?s) = Some (k, '':'' @ stringify v @ tail)"
    using read_chars_quote [of k "'':'' @ stringify v @ tail"] by (simp add: quote_def)
  have 4: "skip_ws ('':'' @ stringify v @ tail) = '':'' @ stringify v @ tail"
    by (intro skip_ws_id) simp
  have 5: "startsWith ('':'' @ stringify v @ tail) '':''" "drop 1 ('':'' @ stringify v @ tail) = stringify v @ tail"
    by simp_all
  have 6: "skip_ws tail = tail" using e by (rule skip_ws_ends)
  show ?thesis
    by (simp only: read_members.simps Let_def 1 2 3 4 5 6 v not_True_eq_False if_False option.case prod.case)
qed

lemma read_members_join:
  assumes ih: "\<And>kv n rest. kv \<in> set kvs \<Longrightarrow> fuel (snd kv) \<le> n \<Longrightarrow> ends_value rest
      \<Longrightarrow> read_value n (stringify (snd kv) @ rest) = Some (snd kv, rest)"
    and ne: "kvs \<noteq> []" and n: "sum_list (map (\<lambda>kv. fuel (snd kv)) kvs) + length kvs \<le> n"
  shows "read_members n (join '','' (map member_text kvs) @ ''}'' @ rest) = Some (kvs, rest)"
  using assms
proof (induction kvs arbitrary: n)
  case Nil
  then show ?case by simp
next
  case (Cons kv kvs)
  from Cons.prems(3) obtain m where m: "n = Suc m" by (cases n) auto
  obtain k v where kv: "kv = (k, v)" by (cases kv)
  show ?case
  proof (cases kvs)
    case Nil
    have e: "ends_value (''}'' @ rest)" by (simp add: ends_value_def)
    have "read_value m (stringify v @ ''}'' @ rest) = Some (v, ''}'' @ rest)"
      using Cons.prems(1) [of kv m "''}'' @ rest"] e Cons.prems(3) m Nil kv by simp
    from rm_step [OF this e, of k] show ?thesis
      using Nil m kv by (simp add: member_text_def)
  next
    case (Cons kv' kvs')
    let ?tail = "'','' @ join '','' (map member_text kvs) @ ''}'' @ rest"
    have e: "ends_value ?tail" by (simp add: ends_value_def)
    have 1: "read_value m (stringify v @ ?tail) = Some (v, ?tail)"
      using Cons.prems(1) [of kv m ?tail] e Cons.prems(3) m kv by simp
    have 2: "read_members m (join '','' (map member_text kvs) @ ''}'' @ rest) = Some (kvs, rest)"
      using Cons.IH [of m] Cons.prems(1) Cons.prems(3) m Cons by simp
    have j: "join '','' (map member_text (kv # kvs)) @ ''}'' @ rest
        = quote k @ '':'' @ stringify v @ ?tail"
      using Cons kv by (simp add: member_text_def)
    show ?thesis
      unfolding j m using rm_step [OF 1 e, of k] 2 kv by simp
  qed
qed

lemma assign_fresh: "k \<notin> fst ` set acc \<Longrightarrow> assign k v acc = acc @ [(k, v)]"
  by (induction acc) auto

lemma foldl_assign:
  "distinct (map fst (acc @ kvs)) \<Longrightarrow> foldl (\<lambda>obj kv. assign (fst kv) (snd kv) obj) acc kvs = acc @ kvs"
proof (induction kvs arbitrary: acc)
  case Nil
  show ?case by simp
next
  case (Cons kv kvs)
  have "fst kv \<notin> fst ` set acc" using Cons.prems by auto
  then have a: "assign (fst kv) (snd kv) acc = acc @ [kv]" by (simp add: assign_fresh)
  have "distinct (map fst ((acc @ [kv]) @ kvs))" using Cons.prems by simp
  from Cons.IH [OF this] show ?case by (simp add: a)
qed

lemma stringify_obj: "stringify (JObj kvs) = ''{'' @ join '','' (map member_text kvs) @ ''}''"
  by (simp add: member_text_def [abs_def])

lemma starts_value_join:
  "xs \<noteq> [] \<Longrightarrow> starts_value (join '','' (map stringify xs) @ t)"
proof (cases xs)
  case Nil
  assume "xs \<noteq> []"
  with Nil show ?thesis by simp
next
  case (Cons x ys)
  then show ?thesis
    using starts_value_stringify [of x]
    by (cases ys) (auto simp: starts_value_def)
qed

lemma members_start:
  "kvs \<noteq> [] \<Longrightarrow> \<exists>s. join '','' (map member_text kvs) @ t = CHR 0x22 # s"
proof (cases kvs)
  case Nil
  assume "kvs \<noteq> []"
  with Nil show ?thesis by simp
next
  case (Cons kv rest)
  then show ?thesis by (cases rest) (auto simp: member_text_def quote_def)
qed

lemma read_value_stringify:
  "wf_json v \<Longrightarrow> fuel v \<le> n \<Longrightarrow> ends_value rest \<Longrightarrow> read_value n (stringify v @ rest) = Some (v, rest)"
proof (induction v arbitrary: n rest)
  case JNull
  then obtain m where m: "n = Suc m" by (cases n) auto
  have "skip_ws (''null'' @ rest) = ''null'' @ rest" by (intro skip_ws_id) simp
  then show ?case by (simp add: m Let_def)
next
  case (JBool b)
  then obtain m where m: "n = Suc m" by (cases n) auto
  have "skip_ws (''true'' @ rest) = ''true'' @ rest" "skip_ws (''false'' @ rest) = ''false'' @ rest"
    by (intro skip_ws_id; simp)+
  then show ?case by (cases b) (simp_all add: m Let_def)
next
  case (JNum i)
  then obtain m where m: "n = Suc m" by (cases n) auto
  have "read_value (Suc m) (show_int i @ rest) = read_number (show_int i @ rest)"
    using hd_show_int [of i] by (intro rv_number) auto
  then show ?case using read_number_show [OF JNum.prems(3), of i] by (simp add: m)
next
  case (JStr s)
  then obtain m where m: "n = Suc m" by (cases n) auto
  show ?case
    using rv_string [of m "concat (map escape_char s) @ CHR 0x22 # rest"] read_chars_quote [of s rest]
    by (simp add: m quote_def)
next
  case (JArr xs)
  then obtain m where m: "n = Suc m" by (cases n) auto
  show ?case
  proof (cases "xs = []")
    case True
    then show ?thesis using rv_array_empty [of m rest] by (simp add: m)
  next
    case False
    have ih: "read_value k (stringify x @ r) = Some (x, r)"
      if "x \<in> set xs" "fuel x \<le> k" "ends_value r" for x k r
      using JArr.IH [OF that(1) _ that(2,3)] JArr.prems(1) that(1) by (simp add: list_all_iff)
    have "sum_list (map fuel xs) + length xs \<le> m" using JArr.prems(2) m by simp
    from read_elements_join [of xs m rest, OF ih False this]
    have "read_elements m (join '','' (map stringify xs) @ '']'' @ rest) = Some (xs, rest)" by simp
    then show ?thesis
      using rv_array [OF starts_value_join [OF False, of "'']'' @ rest"], of m]
      by (simp add: m)
  qed
next
  case (JObj kvs)
  then obtain m where m: "n = Suc m" by (cases n) auto
  show ?case
  proof (cases "kvs = []")
    case True
    then show ?thesis using rv_object_empty [of m rest] by (simp add: m)
  next
    case False
    have ih: "read_value k (stringify (snd kv) @ r) = Some (snd kv, r)"
      if "kv \<in> set kvs" "fuel (snd kv) \<le> k" "ends_value r" for kv k r
    proof -
      have "snd kv \<in> Basic_BNFs.snds kv" by (cases kv) simp
      moreover have "wf_json (snd kv)" using JObj.prems(1) that(1) by (simp add: list_all_iff)
      ultimately show ?thesis using JObj.IH [OF that(1) _ _ that(2,3)] by simp
    qed
    have "sum_list (map (\<lambda>kv. fuel (snd kv)) kvs) + length kvs \<le> m" using JObj.prems(2) m by simp
    from read_members_join [of kvs m rest, OF ih False this]
    have r: "read_members m (join '','' (map member_text kvs) @ ''}'' @ rest) = Some (kvs, rest)" by simp
    obtain s where s: "join '','' (map member_text kvs) @ ''}'' @ rest = CHR 0x22 # s"
      using members_start [OF False] by blast
    have d: "foldl (\<lambda>obj kv. assign (fst kv) (snd kv) obj) [] kvs = kvs"
      using foldl_assign [of "[]" kvs] JObj.prems(1) by simp
    show ?thesis
      using rv_object [of m s] r s d
      by (simp add: m stringify_obj del: stringify.simps)
  qed
qed

lemma length_join: "sum_list (map length ss) + length ss \<le> Suc (length (join '','' ss))"
  by (induction "'',''" ss rule: join.induct) auto

lemma fuel_le_length: "fuel v \<le> length (stringify v)"
proof (induction v)
  case (JNum i)
  show ?case using hd_show_int [of i] by (cases "show_int i") auto
next
  case (JArr xs)
  have "sum_list (map fuel xs) \<le> sum_list (map (\<lambda>x. length (stringify x)) xs)"
    using JArr by (intro sum_list_mono) auto
  then show ?case using length_join [of "map stringify xs"] by (simp add: comp_def)
next
  case (JObj kvs)
  have "fuel (snd kv) \<le> length (member_text kv)" if "kv \<in> set kvs" for kv
  proof -
    have "snd kv \<in> Basic_BNFs.snds kv" by (cases kv) simp
    from JObj [OF that this] show ?thesis by (simp add: member_text_def)
  qed
  then have "sum_list (map (\<lambda>kv. fuel (snd kv)) kvs) \<le> sum_list (map (\<lambda>kv. length (member_text kv)) kvs)"
    by (intro sum_list_mono) auto
  then show ?case using length_join [of "map member_text kvs"]
    by (simp add: comp_def stringify_obj del: stringify.simps)
qed (simp_all add: quote_def)

lemma parse_stringify: "wf_json v \<Longrightarrow> parse (stringify v) = Inr v"
  using read_value_stringify [of v "length (stringify v)" "[]"] fuel_le_length [of v]
  by (simp add: parse_def ends_value_def skip_ws_def)

lemma reference_platform_faithful: "wf_json u \<Longrightarrow> json_faithful reference_platform u"
  using starts_value_stringify [of u]
  by (auto simp: json_faithful_def reference_platform_def parse_stringify starts_value_def)

declare startsWith_Cons [simp del] startsWith_Nil [simp del]

section \<open>Properties of the session store\<close>

lemma get_string_truthy: "typeof_string (get v k) \<Longrightarrow> truthy v"
  by (cases v rule: truthy.cases) simp_all

lemma valid_structure_iff: "valid_structure (Some u) = UserRecord_invariant u"
  unfolding valid_structure_def UserRecord_invariant_def leaf_def
  using get_string_truthy by blast

lemma getUserFromStorage_returns: "\<exists>r. fst (getUserFromStorage P ls) = Inr r"
  unfolding getUserFromStorage_def
  by (auto split: prod.splits sum.splits)

lemma load_corrupt:
  assumes w: "available ls = Working" and c: "items ls USER_DATA = Some c" and ne: "c \<noteq> []"
    and bad: "corrupt P c"
  shows "getUserFromStorage P ls = (Inr None, ls\<lparr>items := (items ls)(USER_DATA := None)\<rparr>)"
  using assms
  by (auto simp: getUserFromStorage_def getUserFromStorage_try_def storage_missing_def getItem_def
      removeItem_def access_def corrupt_def valid_structure_iff split: sum.splits)

lemma load_absent:
  assumes w: "available ls = Working" and c: "items ls USER_DATA = None"
  shows "getUserFromStorage P ls = (Inr None, ls)"
  using assms
  by (simp add: getUserFromStorage_def getUserFromStorage_try_def storage_missing_def getItem_def access_def)

lemma load_empty:
  assumes w: "available ls = Working" and c: "items ls USER_DATA = Some []"
  shows "getUserFromStorage P ls = (Inr None, ls)"
  using assms
  by (simp add: getUserFromStorage_def getUserFromStorage_try_def storage_missing_def getItem_def access_def)

lemma load_valid:
  assumes w: "available ls = Working" and c: "items ls USER_DATA = Some c" and ne: "c \<noteq> []"
    and p: "JSON_parse P c = Inr u" and v: "UserRecord_invariant u"
  shows "getUserFromStorage P ls = (Inr (Some u), ls)"
  using assms
  by (simp add: getUserFromStorage_def getUserFromStorage_try_def storage_missing_def getItem_def access_def
      valid_structure_iff)

lemma save_success:
  assumes "saveUserToStorage P user ls = (Inr (), ls')"
  shows "\<exists>u. user = Some u \<and> available ls = Working
    \<and> ls' = ls\<lparr>items := (items ls)(USER_DATA \<mapsto> JSON_stringify P u)\<rparr>"
  using assms
  unfolding saveUserToStorage_def saveUserToStorage_try_def storage_missing_def setItem_def getItem_def
    access_def Let_def
  by (auto split: sum.splits prod.splits if_splits option.splits availability.splits bool.splits)

lemma save_ok:
  assumes "available ls = Working" "truthy (Some u)" "truthy (get (Some u) ''name'')"
    "truthy (get (Some u) ''email'')" "truthy (get (Some u) ''picture'')"
    "length (JSON_stringify P u) \<le> quota ls" "JSON_stringify P u \<noteq> []"
  shows "saveUserToStorage P (Some u) ls = (Inr (), ls\<lparr>items := (items ls)(USER_DATA \<mapsto> JSON_stringify P u)\<rparr>)"
  using assms
  by (simp add: saveUserToStorage_def saveUserToStorage_try_def storage_missing_def setItem_def getItem_def
    access_def Let_def)

lemma save_shallow_reject:
  assumes "available ls = Working"
    "\<not> truthy user \<or> \<not> truthy (get user ''name'') \<or> \<not> truthy (get user ''email'') \<or> \<not> truthy (get user ''picture'')"
  shows "saveUserToStorage P user ls = (Inl (Error ''Error'' ''Invalid user data: missing required fields''), ls)"
  using assms
  by (auto simp: saveUserToStorage_def saveUserToStorage_try_def storage_missing_def saveUserToStorage_catch_def
     startsWith_def)

text \<open>Evaluations on the reference platform.\<close>

lemma stringify_john_no_last_len: "length (stringify john_no_last) \<le> 5242880"
proof -
  have "length (stringify john_no_last) \<le> 200" by code_simp
  then show ?thesis by simp
qed

lemma stringify_john_no_last_ne: "stringify john_no_last \<noteq> []"
  by code_simp

lemma parse_john_no_last: "parse (stringify john_no_last) = Inr john_no_last"
  by code_simp

lemma parse_john: "parse (stringify john) = Inr john"
  by code_simp

lemma stringify_john: "length (stringify john) \<le> 5242880" "stringify john \<noteq> []"
proof -
  have "length (stringify john) \<le> 200" by code_simp
  then show "length (stringify john) \<le> 5242880" by simp
  show "stringify john \<noteq> []" by code_simp
qed

lemma parse_garbage: "parse ''not json'' = Inl (Error ''SyntaxError'' ''Unexpected token in JSON'')"
  by code_simp

lemma parse_empty: "parse [] = Inl (Error ''SyntaxError'' ''Unexpected token in JSON'')"
  by code_simp

lemma inv_john: "UserRecord_invariant john"
  by (simp add: UserRecord_invariant_def leaf_def john_def)

lemma inv_john_no_last: "\<not> UserRecord_invariant john_no_last"
  by (simp add: UserRecord_invariant_def leaf_def john_no_last_def)

lemma store_holding_simps:
  "available (store_holding c) = Working" "items (store_holding c) USER_DATA = Some c"
  "quota (store_holding c) = 5242880"
  "(store_holding c)\<lparr>items := (items (store_holding c))(USER_DATA := None)\<rparr> = empty_store"
  "empty_store\<lparr>items := (items empty_store)(USER_DATA \<mapsto> c)\<rparr> = store_holding c"
  "available empty_store = Working" "items empty_store USER_DATA = None" "quota empty_store = 5242880"
  by (simp_all add: store_holding_def empty_store_def)

text \<open>
  C3. \<open>saveUserToStorage\<close> tests only that \<open>user\<close>, \<open>user.name\<close>, \<open>user.email\<close> and
  \<open>user.picture\<close> are truthy. The record without \<open>name.last\<close> fails the UserRecord
  invariant, yet it is saved without an error and is then present in the store; the next
  \<open>getUserFromStorage\<close> judges the same record invalid and deletes it.
\<close>

theorem save_persists_record_without_last_name:
  "\<not> UserRecord_invariant john_no_last
   \<and> saveUserToStorage reference_platform (Some john_no_last) empty_store
       = (Inr (), store_holding (stringify john_no_last))
   \<and> getUserFromStorage reference_platform (store_holding (stringify john_no_last)) = (Inr None, empty_store)"
proof -
  have P: "JSON_stringify reference_platform = stringify" "JSON_parse reference_platform = parse"
    by (simp_all add: reference_platform_def)
  have t: "truthy (Some john_no_last)" "truthy (get (Some john_no_last) ''name'')"
    "truthy (get (Some john_no_last) ''email'')" "truthy (get (Some john_no_last) ''picture'')"
    by (simp_all add: john_no_last_def)
  have s: "saveUserToStorage reference_platform (Some john_no_last) empty_store
       = (Inr (), store_holding (stringify john_no_last))"
    using save_ok [of empty_store john_no_last reference_platform] t
      stringify_john_no_last_len stringify_john_no_last_ne
    by (simp add: P store_holding_simps)
  have c: "corrupt reference_platform (stringify john_no_last)"
    by (simp add: corrupt_def P parse_john_no_last inv_john_no_last)
  have l: "getUserFromStorage reference_platform (store_holding (stringify john_no_last)) = (Inr None, empty_store)"
    using load_corrupt [of "store_holding (stringify john_no_last)" "stringify john_no_last" reference_platform]
      c stringify_john_no_last_ne
    by (simp add: store_holding_simps)
  show ?thesis using s l inv_john_no_last by simp
qed

text \<open>
  C4, as stated, fails on the empty string: stored content that does not parse, for which
  \<open>getUserFromStorage\<close> returns \<open>null\<close> at the guard \<open>!userData\<close> and leaves the
  record in the store.
\<close>

theorem load_empty_string_counterexample:
  "corrupt reference_platform []
   \<and> available (store_holding []) = Working
   \<and> getUserFromStorage reference_platform (store_holding []) = (Inr None, store_holding [])
   \<and> items (store_holding []) USER_DATA = Some []"
  using load_empty [of "store_holding []" reference_platform]
  by (simp add: corrupt_def reference_platform_def parse_empty store_holding_simps)

text \<open>
  C4, amended. \<open>getUserFromStorage\<close> never throws. On a working store, for every
  non-empty stored content that fails to parse or parses to a value failing the UserRecord
  invariant, it deletes the stored record and returns \<open>null\<close>, and a subsequent call returns
  \<open>null\<close> as well. For the empty string as stored content it returns \<open>null\<close> and leaves the
  store as it is.
\<close>

theorem load_self_heals:
  "(\<exists>r. fst (getUserFromStorage P ls) = Inr r)
   \<and> (available ls = Working \<and> items ls USER_DATA = Some c \<and> c \<noteq> [] \<and> corrupt P c \<longrightarrow>
        getUserFromStorage P ls = (Inr None, ls\<lparr>items := (items ls)(USER_DATA := None)\<rparr>)
        \<and> getUserFromStorage P (ls\<lparr>items := (items ls)(USER_DATA := None)\<rparr>)
            = (Inr None, ls\<lparr>items := (items ls)(USER_DATA := None)\<rparr>))
   \<and> (available ls = Working \<and> items ls USER_DATA = Some [] \<longrightarrow>
        getUserFromStorage P ls = (Inr None, ls))"
  using getUserFromStorage_returns [of P ls] load_corrupt [of ls c P] load_empty [of ls P]
    load_absent [of "ls\<lparr>items := (items ls)(USER_DATA := None)\<rparr>" P]
  by simp

theorem load_self_heals_witness:
  "corrupt reference_platform ''not json''
   \<and> getUserFromStorage reference_platform (store_holding ''not json'') = (Inr None, empty_store)
   \<and> getUserFromStorage reference_platform empty_store = (Inr None, empty_store)
   \<and> corrupt reference_platform (stringify john_no_last)
   \<and> getUserFromStorage reference_platform (store_holding (stringify john_no_last)) = (Inr None, empty_store)
   \<and> getUserFromStorage reference_platform (store_holding []) = (Inr None, store_holding [])"
proof -
  have P: "JSON_stringify reference_platform = stringify" "JSON_parse reference_platform = parse"
    by (simp_all add: reference_platform_def)
  have c1: "corrupt reference_platform ''not json''"
    by (simp add: corrupt_def P parse_garbage)
  have c2: "corrupt reference_platform (stringify john_no_last)"
    by (simp add: corrupt_def P parse_john_no_last inv_john_no_last)
  show ?thesis
    using c1 c2 stringify_john_no_last_ne
      load_self_heals [of reference_platform "store_holding ''not json''" "''not json''"]
      load_self_heals [of reference_platform "store_holding (stringify john_no_last)" "stringify john_no_last"]
      load_self_heals [of reference_platform "store_holding []" "[]"]
    by (simp add: store_holding_simps)
qed

text \<open>
  C8. For every record \<open>u\<close> satisfying the UserRecord invariant, if
  \<open>saveUserToStorage\<close> succeeds, then \<open>getUserFromStorage\<close> on the store it leaves returns
  \<open>u\<close>. \<open>JSON.stringify\<close> and \<open>JSON.parse\<close> belong to the platform: the first part holds
  on every platform whose JSON text of \<open>u\<close> is not empty and parses back to \<open>u\<close>, and the
  second part holds without that assumption on the reference platform, for every
  well-formed \<open>u\<close>.
\<close>

theorem save_load_roundtrip:
  "(UserRecord_invariant u \<and> saveUserToStorage P (Some u) ls = (Inr (), ls') \<and> json_faithful P u \<longrightarrow>
      getUserFromStorage P ls' = (Inr (Some u), ls'))
   \<and> (UserRecord_invariant u \<and> wf_json u
        \<and> saveUserToStorage reference_platform (Some u) ls = (Inr (), ls'') \<longrightarrow>
      getUserFromStorage reference_platform ls'' = (Inr (Some u), ls''))"
proof -
  have general: "getUserFromStorage Q l' = (Inr (Some u), l')"
    if inv: "UserRecord_invariant u" and saved: "saveUserToStorage Q (Some u) l = (Inr (), l')"
      and codec: "json_faithful Q u" for Q l l'
  proof -
    from save_success [OF saved]
    have w: "available l = Working" and l: "l' = l\<lparr>items := (items l)(USER_DATA \<mapsto> JSON_stringify Q u)\<rparr>"
      by auto
    from w l have "available l' = Working" "items l' USER_DATA = Some (JSON_stringify Q u)" by simp_all
    moreover from codec have "JSON_stringify Q u \<noteq> []" "JSON_parse Q (JSON_stringify Q u) = Inr u"
      by (simp_all add: json_faithful_def)
    ultimately show ?thesis using inv by (simp add: load_valid)
  qed
  show ?thesis
    using general [of P ls ls'] general [of reference_platform ls ls''] reference_platform_faithful [of u]
    by blast
qed

theorem save_load_roundtrip_witness:
  "UserRecord_invariant john
   \<and> wf_json john
   \<and> saveUserToStorage reference_platform (Some john) empty_store = (Inr (), store_holding (stringify john))
   \<and> json_faithful reference_platform john
   \<and> getUserFromStorage reference_platform (store_holding (stringify john))
       = (Inr (Some john), store_holding (stringify john))"
proof -
  have P: "JSON_stringify reference_platform = stringify" "JSON_parse reference_platform = parse"
    by (simp_all add: reference_platform_def)
  have t: "truthy (Some john)" "truthy (get (Some john) ''name'')"
    "truthy (get (Some john) ''email'')" "truthy (get (Some john) ''picture'')"
    by (simp_all add: john_def)
  have s: "saveUserToStorage reference_platform (Some john) empty_store = (Inr (), store_holding (stringify john))"
    using save_ok [of empty_store john reference_platform] t stringify_john
    by (simp add: P store_holding_simps)
  have f: "json_faithful reference_platform john"
    by (simp add: json_faithful_def P parse_john stringify_john)
  have w: "wf_json john" by (simp add: john_def)
  show ?thesis
    using inv_john s f w
      save_load_roundtrip [of john reference_platform empty_store "store_holding (stringify john)"
        "store_holding (stringify john)"]
    by simp
qed

section \<open>Properties of the identity client\<close>

lemma fetch_shallow:
  assumes "nw RANDOM_USER_URL = Inr (Response True st (Inr (JObj [(''results'', JArr (JObj kvs # rest))])))"
    "truthy (map_of kvs ''name'')" "truthy (map_of kvs ''email'')" "truthy (map_of kvs ''picture'')"
    "generateHijabAvatars (get (map_of kvs ''name'') ''first'') (get (map_of kvs ''name'') ''last'') = Inr av"
    "testAvatarUrl nw (medium av)"
  shows "fetchRandomUser nw = Inr (JObj (assign ''picture'' (avatars_object av) kvs))"
  using assms
  by (simp add: fetchRandomUser_def fetchRandomUser_try_def index_def Let_def)

lemma generate_strings:
  "\<exists>av. generateHijabAvatars (Some (JStr a)) (Some (JStr b)) = Inr av"
  by (simp add: generateHijabAvatars_def template_def to_string_def Let_def)

lemma generate_no_last: "generateHijabAvatars (Some (JStr ''John'')) None = Inr no_last_avatars"
  by code_simp

lemma serve_avatar_ok: "testAvatarUrl (serve u) url"
  by (simp add: testAvatarUrl_def serve_def)

text \<open>
  C9. \<open>fetchRandomUser\<close> tests only that \<open>user.name\<close>, \<open>user.email\<close> and
  \<open>user.picture\<close> are truthy. For a 200 response whose first record has no \<open>name.last\<close>
  it returns that record, with the picture replaced, as a success; the returned record
  fails the UserRecord invariant.
\<close>

theorem fetch_returns_record_without_last_name:
  "\<not> UserRecord_invariant john_no_last
   \<and> fetchRandomUser (serve john_no_last) = Inr fetched_no_last
   \<and> \<not> UserRecord_invariant fetched_no_last"
proof -
  define kvs where "kvs = [(''name'', JObj [(''first'', JStr ''John'')]),
      (''email'', JStr ''john@example.com''),
      (''picture'', JObj [(''large'', JStr ''l.jpg''), (''medium'', JStr ''m.jpg''),
                          (''thumbnail'', JStr ''t.jpg'')])]"
  have u: "john_no_last = JObj kvs" by (simp add: john_no_last_def kvs_def)
  have r: "serve john_no_last RANDOM_USER_URL = Inr (Response True 200 (Inr (JObj [(''results'', JArr (JObj kvs # []))])))"
    by (simp add: serve_def u)
  have m: "map_of kvs ''name'' = Some (JObj [(''first'', JStr ''John'')])"
    "truthy (map_of kvs ''email'')" "truthy (map_of kvs ''picture'')"
    by (simp_all add: kvs_def)
  have a: "assign ''picture'' p kvs = [(''name'', JObj [(''first'', JStr ''John'')]),
      (''email'', JStr ''john@example.com''), (''picture'', p)]" for p
    by (simp add: kvs_def)
  have "fetchRandomUser (serve john_no_last) = Inr fetched_no_last"
    using fetch_shallow [of "serve john_no_last" 200 kvs "[]" no_last_avatars] r m generate_no_last
    by (simp add: serve_avatar_ok a fetched_no_last_def)
  moreover have "\<not> UserRecord_invariant fetched_no_last"
    by (simp add: UserRecord_invariant_def leaf_def fetched_no_last_def)
  ultimately show ?thesis using inv_john_no_last by simp
qed

section \<open>Properties of the login controller\<close>

lemma validate_trim_nonempty: "validateIranianPhone p \<Longrightarrow> trim p \<noteq> []"
  by (auto simp: validateIranianPhone_def PHONE_PATTERNS_def STANDARD_def INTERNATIONAL_def COUNTRY_CODE_def Let_def
      split: if_splits)

lemma validateForm_ok: "validateIranianPhone (phoneNumber r) \<Longrightarrow> validateForm r f = (True, f)"
  by (simp add: validateForm_def validate_trim_nonempty)

lemma catch_retryCount: "retryCount (handleSubmit_catch r err f) = retryCount r + 1"
  by (simp add: handleSubmit_catch_def setErrorState_def Let_def)

lemma catch_retryable: "has_retryable_error (handleSubmit_catch r err f)"
  by (simp add: handleSubmit_catch_def setErrorState_def Let_def has_retryable_error_def)

lemma catch_rest:
  "phoneNumber (handleSubmit_catch r err f) = phoneNumber f"
  "isRedirecting (handleSubmit_catch r err f) = isRedirecting f"
  by (simp_all add: handleSubmit_catch_def setErrorState_def Let_def)

lemma has_retryable_update [simp]: "has_retryable_error (f\<lparr>isLoading := b\<rparr>) = has_retryable_error f"
  by (simp add: has_retryable_error_def)

lemma submit_fetch_fails:
  assumes "validateIranianPhone (phoneNumber r)" "fetch_fails a"
  shows "retryCount (form (handleSubmit P r a w)) = retryCount r + 1"
    "has_retryable_error (form (handleSubmit P r a w))"
    "phoneNumber (form (handleSubmit P r a w)) = phoneNumber (form w)"
    "isRedirecting (form (handleSubmit P r a w)) = isRedirecting (form w)"
    "isLoading (form (handleSubmit P r a w)) = False"
    "store (handleSubmit P r a w) = store w"
  using assms
  by (auto simp: handleSubmit_def validateForm_ok fetch_fails_def Let_def catch_retryCount catch_retryable
      catch_rest clearError_def has_retryable_update split: sum.splits)

lemma fire_submit_fails:
  assumes "validateIranianPhone (phoneNumber (form w))" "\<not> busy (form w)" "fetch_fails a"
  shows "retryCount (form (fire P w (Submit a))) = retryCount (form w) + 1"
    "has_retryable_error (form (fire P w (Submit a)))"
    "phoneNumber (form (fire P w (Submit a))) = phoneNumber (form w)"
    "\<not> busy (form (fire P w (Submit a)))"
  using assms submit_fetch_fails [of "form w" a P w]
  by (auto simp: busy_def)

lemma fire_submit_store:
  assumes "validateIranianPhone (phoneNumber (form w))" "\<not> busy (form w)" "fetch_fails a"
  shows "store (fire P w (Submit a)) = store w" "pushed (fire P w (Submit a)) = pushed w"
  using assms
  by (auto simp: handleSubmit_def validateForm_ok fetch_fails_def Let_def split: sum.splits)

lemma fire_retry_fails:
  assumes "validateIranianPhone (phoneNumber (form w))" "\<not> busy (form w)" "fetch_fails a" "retry_offered (form w)"
  shows "retryCount (form (fire P w (Retry a))) = retryCount (form w) + 1"
    "has_retryable_error (form (fire P w (Retry a)))"
    "phoneNumber (form (fire P w (Retry a))) = phoneNumber (form w)"
    "\<not> busy (form (fire P w (Retry a)))"
  using assms submit_fetch_fails [of "form w" a P "w\<lparr>form := clearError (form w)\<rparr>"]
  by (auto simp: busy_def handleRetry_def retry_offered_def clearError_def)

lemma fire_retry_not_offered: "\<not> retry_offered (form w) \<Longrightarrow> fire P w (Retry a) = w"
  by simp

lemma offered_iff: "has_retryable_error f \<Longrightarrow> retry_offered f = (retryCount f < 3)"
  "has_retryable_error f \<Longrightarrow> reset_offered f = (3 \<le> retryCount f)"
  by (auto simp: has_retryable_error_def retry_offered_def reset_offered_def)

lemma three_failures:
  assumes v: "validateIranianPhone (phoneNumber (form w))" and nb: "\<not> busy (form w)"
    and f1: "fetch_fails a1" and f2: "fetch_fails a2" and f3: "fetch_fails a3"
  shows "\<not> retry_offered (form (run P w [Submit a1, Retry a2, Retry a3]))
    \<and> reset_offered (form (run P w [Submit a1, Retry a2, Retry a3]))
    \<and> (retryCount (form w) = 0 \<longrightarrow>
          retry_offered (form (run P w [Submit a1])) \<and> retry_offered (form (run P w [Submit a1, Retry a2])))"
proof -
  define w1 where "w1 = fire P w (Submit a1)"
  define w2 where "w2 = fire P w1 (Retry a2)"
  define w3 where "w3 = fire P w2 (Retry a3)"
  note s1 = fire_submit_fails [OF v nb f1, of P, folded w1_def]
  have s2: "retryCount (form w2) = (if retry_offered (form w1) then retryCount (form w1) + 1 else retryCount (form w1))"
    "has_retryable_error (form w2)" "validateIranianPhone (phoneNumber (form w2))" "\<not> busy (form w2)"
    using s1 v fire_retry_fails [of w1 a2 P] f2 fire_retry_not_offered [of w1 P a2]
    unfolding w2_def by (cases "retry_offered (form w1)"; simp)+
  have s3: "retryCount (form w3) = (if retry_offered (form w2) then retryCount (form w2) + 1 else retryCount (form w2))"
    "has_retryable_error (form w3)"
    using s2 fire_retry_fails [of w2 a3 P] f3 fire_retry_not_offered [of w2 P a3]
    unfolding w3_def by (cases "retry_offered (form w2)"; simp)+
  have r: "run P w [Submit a1, Retry a2, Retry a3] = w3" "run P w [Submit a1] = w1" "run P w [Submit a1, Retry a2] = w2"
    by (simp_all add: run_def w1_def w2_def w3_def)
  have "3 \<le> retryCount (form w3)"
    using s1(1,2) s2(1,2) s3(1) by (auto simp: offered_iff split: if_splits)
  moreover have "retryCount (form w) = 0 \<Longrightarrow> retryCount (form w1) = 1 \<and> retryCount (form w2) = 2"
    using s1(1,2) s2(1) by (auto simp: offered_iff)
  ultimately show ?thesis
    unfolding r using s1(2) s2(2) s3(2) by (auto simp: offered_iff)
qed

lemma stringify_nonempty: "stringify v \<noteq> []"
  by (cases v) (simp_all add: show_int_def show_nat_nonempty quote_def)

lemma save_full:
  assumes "available ls = Working" "quota ls = 0" "JSON_stringify P = stringify"
    "truthy (Some u)" "truthy (get (Some u) ''name'')" "truthy (get (Some u) ''email'')"
    "truthy (get (Some u) ''picture'')"
  shows "saveUserToStorage P (Some u) ls =
    (Inl (Error ''Error'' ''Storage quota exceeded. Please clear some browser data and try again.''), ls)"
  using assms stringify_nonempty [of u]
  by (simp add: saveUserToStorage_def saveUserToStorage_try_def storage_missing_def setItem_def access_def
      saveUserToStorage_catch_def Let_def)

lemma submit_storage_fails:
  assumes "validateIranianPhone (phoneNumber r)" "fetchRandomUser (net a) = Inr u"
    "saveUserToStorage P (Some u) (store w) = (Inl e, ls)"
  shows "handleSubmit P r a w =
    w\<lparr>form := (form w)\<lparr>error := Some storage_error, retryCount := 0, isLoading := False\<rparr>, store := ls\<rparr>"
  using assms
  by (simp add: handleSubmit_def validateForm_ok Let_def clearError_def setErrorState_def storage_error_def)

lemma fetch_john:
  "\<exists>u. fetchRandomUser (serve john) = Inr u \<and> truthy (Some u) \<and> truthy (get (Some u) ''name'')
     \<and> truthy (get (Some u) ''email'') \<and> truthy (get (Some u) ''picture'')"
proof -
  define kvs where "kvs = [(''name'', JObj [(''first'', JStr ''John''), (''last'', JStr ''Doe'')]),
      (''email'', JStr ''john@example.com''),
      (''picture'', JObj [(''large'', JStr ''l.jpg''), (''medium'', JStr ''m.jpg''),
                          (''thumbnail'', JStr ''t.jpg'')])]"
  have u: "john = JObj kvs" by (simp add: john_def kvs_def)
  have r: "serve john RANDOM_USER_URL = Inr (Response True 200 (Inr (JObj [(''results'', JArr (JObj kvs # []))])))"
    by (simp add: serve_def u)
  have m: "truthy (map_of kvs ''name'')" "truthy (map_of kvs ''email'')" "truthy (map_of kvs ''picture'')"
    by (simp_all add: kvs_def)
  have a: "assign ''picture'' p kvs = [(''name'', JObj [(''first'', JStr ''John''), (''last'', JStr ''Doe'')]),
      (''email'', JStr ''john@example.com''), (''picture'', p)]" for p
    by (simp add: kvs_def)
  have n: "map_of kvs ''name'' = Some (JObj [(''first'', JStr ''John''), (''last'', JStr ''Doe'')])"
    by (simp add: kvs_def)
  obtain av where av: "generateHijabAvatars (Some (JStr ''John'')) (Some (JStr ''Doe'')) = Inr av"
    using generate_strings by blast
  show ?thesis
    using fetch_shallow [of "serve john" 200 kvs "[]" av] r m av
    by (simp add: n serve_avatar_ok a avatars_object_def)
qed

lemma failing_attempt_fails: "fetch_fails failing_attempt"
  by (simp add: fetch_fails_def failing_attempt_def fetchRandomUser_def fetchRandomUser_try_def server_error_def)

lemma valid_phone: "validateIranianPhone ''09123456789''"
  by (simp add: validate_iff phone_eval)

lemma typed_world_simps:
  "validateIranianPhone (phoneNumber (form (typed_world ls)))" "\<not> busy (form (typed_world ls))"
  "retryCount (form (typed_world ls)) = 0" "store (typed_world ls) = ls"
  "phoneNumber (form (typed_world ls)) = ''09123456789''"
  by (simp_all add: typed_world_def initial_form_def valid_phone busy_def)

lemma submit_on_full_store:
  assumes "phoneNumber r = ''09123456789''" "store w = full_store"
  shows "handleSubmit reference_platform r ok_attempt w
     = w\<lparr>form := (form w)\<lparr>error := Some storage_error, retryCount := 0, isLoading := False\<rparr>\<rparr>"
proof -
  from fetch_john obtain u where u: "fetchRandomUser (serve john) = Inr u" "truthy (Some u)"
    "truthy (get (Some u) ''name'')" "truthy (get (Some u) ''email'')" "truthy (get (Some u) ''picture'')"
    by blast
  have s: "saveUserToStorage reference_platform (Some u) (store w) =
    (Inl (Error ''Error'' ''Storage quota exceeded. Please clear some browser data and try again.''), full_store)"
    using save_full [of full_store reference_platform u] u assms
    by (simp add: full_store_def reference_platform_def)
  show ?thesis
    using submit_storage_fails [of r ok_attempt u reference_platform w _ full_store] u s assms valid_phone
    by (simp add: ok_attempt_def)
qed

text \<open>
  C1, as stated, fails for storage failures: they are presented as retryable, but only the
  \<open>catch\<close> of the fetch increments the counter. On a store whose quota is used up, the
  submission and two retries each end in the retryable storage error with the counter at
  0, and the retry is still offered and the reset is not.
\<close>

theorem storage_failures_counterexample:
  "form (run reference_platform (typed_world full_store) [Submit ok_attempt]) = storage_failed_form
   \<and> form (run reference_platform (typed_world full_store) [Submit ok_attempt, Retry ok_attempt])
       = storage_failed_form
   \<and> form (run reference_platform (typed_world full_store)
        [Submit ok_attempt, Retry ok_attempt, Retry ok_attempt]) = storage_failed_form
   \<and> has_retryable_error storage_failed_form
   \<and> retry_offered storage_failed_form
   \<and> \<not> reset_offered storage_failed_form"
proof -
  define w1 where "w1 = \<lparr>form = storage_failed_form, store = full_store, pushed = []\<rparr>"
  have o: "retry_offered storage_failed_form" "\<not> reset_offered storage_failed_form"
    "has_retryable_error storage_failed_form" "\<not> busy storage_failed_form"
    by (simp_all add: retry_offered_def reset_offered_def storage_failed_form_def storage_error_def
        has_retryable_error_def busy_def)
  have 1: "fire reference_platform (typed_world full_store) (Submit ok_attempt) = w1"
    using submit_on_full_store [of "form (typed_world full_store)" "typed_world full_store"]
    by (simp add: typed_world_def w1_def initial_form_def busy_def storage_failed_form_def)
  have 2: "fire reference_platform w1 (Retry ok_attempt) = w1"
    using submit_on_full_store [of "form w1" "w1\<lparr>form := clearError (form w1)\<rparr>"] o
    by (simp add: w1_def handleRetry_def storage_failed_form_def storage_error_def clearError_def busy_def)
  have f: "form w1 = storage_failed_form" by (simp add: w1_def)
  show ?thesis
    unfolding run_def foldl.simps 1 2 f using o by simp
qed

text \<open>
  C1, amended. After three consecutive failures of the identity fetch from one submission
  lineage (the submission, then retries through the retry action), the controller offers
  no retry and offers the reset. Starting from a counter of 0, the retry is offered after
  the first and after the second failure.
\<close>

theorem retry_budget_exhausted:
  assumes v: "validateIranianPhone (phoneNumber (form w))" and nb: "\<not> busy (form w)"
    and f1: "fetch_fails a1" and f2: "fetch_fails a2" and f3: "fetch_fails a3"
  shows "\<not> retry_offered (form (run P w [Submit a1, Retry a2, Retry a3]))
    \<and> reset_offered (form (run P w [Submit a1, Retry a2, Retry a3]))
    \<and> (retryCount (form w) = 0 \<longrightarrow>
          retry_offered (form (run P w [Submit a1])) \<and> retry_offered (form (run P w [Submit a1, Retry a2])))"
  using assms by (rule three_failures)

theorem retry_budget_exhausted_witness:
  "validateIranianPhone (phoneNumber (form (typed_world empty_store)))
   \<and> \<not> busy (form (typed_world empty_store))
   \<and> fetch_fails failing_attempt
   \<and> retry_offered (form (run reference_platform (typed_world empty_store) [Submit failing_attempt]))
   \<and> retry_offered (form (run reference_platform (typed_world empty_store)
        [Submit failing_attempt, Retry failing_attempt]))
   \<and> \<not> retry_offered (form (run reference_platform (typed_world empty_store)
        [Submit failing_attempt, Retry failing_attempt, Retry failing_attempt]))
   \<and> reset_offered (form (run reference_platform (typed_world empty_store)
        [Submit failing_attempt, Retry failing_attempt, Retry failing_attempt]))"
  using retry_budget_exhausted [of "typed_world empty_store" failing_attempt failing_attempt failing_attempt
      reference_platform]
    typed_world_simps [of empty_store] failing_attempt_fails
  by simp

lemma failing_submits:
  assumes "validateIranianPhone (phoneNumber (form w))" "\<not> busy (form w)" "fetch_fails a"
  shows "retryCount (form (run P w (replicate n (Submit a)))) = retryCount (form w) + n
    \<and> validateIranianPhone (phoneNumber (form (run P w (replicate n (Submit a)))))
    \<and> \<not> busy (form (run P w (replicate n (Submit a))))"
  using assms
proof (induction n arbitrary: w)
  case 0
  then show ?case by (simp add: run_def)
next
  case (Suc n)
  note s = fire_submit_fails [OF Suc.prems, of P]
  have r: "run P w (replicate (Suc n) (Submit a)) = run P (fire P w (Submit a)) (replicate n (Submit a))"
    by (simp add: run_def)
  have v: "validateIranianPhone (phoneNumber (form (fire P w (Submit a))))"
    using s(3) Suc.prems(1) by simp
  show ?case
    unfolding r using Suc.IH [OF v s(4) Suc.prems(3)] s(1) by simp
qed

text \<open>
  C2. \<open>handleSubmit\<close> begins with \<open>clearError()\<close>, yet a fresh submission does not reset
  the counter: the \<open>catch\<close> of a failed fetch writes the count captured by the render plus
  one, so four fresh submissions with a failing fetch leave the counter at 1, 2, 3 and 4.
  And \<open>handleRetry\<close> calls \<open>clearError()\<close> as well: after one failed fetch, with the counter
  at 1 and the retry offered, a retry on which the fetch succeeds and the save fails
  leaves the counter at 0, so the counter decreases across a retry transition.
\<close>

theorem fresh_submission_keeps_retry_resets:
  "retryCount (form (run reference_platform (typed_world empty_store) [Submit failing_attempt])) = 1
   \<and> retryCount (form (run reference_platform (typed_world empty_store)
        [Submit failing_attempt, Submit failing_attempt])) = 2
   \<and> retryCount (form (run reference_platform (typed_world empty_store)
        [Submit failing_attempt, Submit failing_attempt, Submit failing_attempt])) = 3
   \<and> retryCount (form (run reference_platform (typed_world empty_store)
        [Submit failing_attempt, Submit failing_attempt, Submit failing_attempt, Submit failing_attempt])) = 4
   \<and> retryCount (form (run reference_platform (typed_world full_store) [Submit failing_attempt])) = 1
   \<and> retry_offered (form (run reference_platform (typed_world full_store) [Submit failing_attempt]))
   \<and> retryCount (form (run reference_platform (typed_world full_store)
        [Submit failing_attempt, Retry ok_attempt])) = 0"
proof -
  have n: "retryCount (form (run reference_platform (typed_world empty_store)
      (replicate k (Submit failing_attempt)))) = k" for k
    using failing_submits [of "typed_world empty_store" failing_attempt reference_platform k]
      failing_attempt_fails
    by (simp add: typed_world_simps valid_phone)
  define w1 where "w1 = fire reference_platform (typed_world full_store) (Submit failing_attempt)"
  note s1 = fire_submit_fails [of "typed_world full_store" failing_attempt reference_platform, folded w1_def,
      OF typed_world_simps(1,2) failing_attempt_fails]
  have st: "store w1 = full_store"
    using fire_submit_store(1) [of "typed_world full_store" failing_attempt reference_platform]
      typed_world_simps [of full_store] failing_attempt_fails
    by (simp add: w1_def)
  have c1: "retryCount (form w1) = 1" using s1(1) by (simp add: typed_world_simps)
  have o1: "retry_offered (form w1)" using s1(2) c1 by (simp add: offered_iff)
  have p1: "phoneNumber (form w1) = ''09123456789''" using s1(3) by (simp add: typed_world_simps)
  have r1: "case error (form w1) of None \<Rightarrow> False | Some e \<Rightarrow> retryable e"
    using s1(2) by (simp add: has_retryable_error_def)
  have 2: "retryCount (form (fire reference_platform w1 (Retry ok_attempt))) = 0"
    using submit_on_full_store [of "form w1" "w1\<lparr>form := clearError (form w1)\<rparr>"] o1 p1 st s1(4) r1
    by (simp add: handleRetry_def)
  have full: "run reference_platform (typed_world full_store) [Submit failing_attempt] = w1"
    "run reference_platform (typed_world full_store) [Submit failing_attempt, Retry ok_attempt]
      = fire reference_platform w1 (Retry ok_attempt)"
    by (simp_all add: run_def w1_def)
  show ?thesis
    unfolding full using n [of 1] n [of 2] n [of 3] n [of 4] c1 o1 2
    by (simp add: eval_nat_numeral)
qed

text \<open>
  C10. A change of the phone-number input while an error is presented clears the error
  and sets the retry counter to 0. The full budget is then available again: if the new
  number is valid, the retry is offered after the first and the second failed fetch and
  withdrawn, with the reset offered, after the third.
\<close>

theorem phone_change_restores_budget:
  "(error r \<noteq> None \<longrightarrow>
      error (handlePhoneChange r val f) = None \<and> retryCount (handlePhoneChange r val f) = 0
      \<and> phoneNumber (handlePhoneChange r val f) = val)
   \<and> (error (form w) \<noteq> None \<and> \<not> busy (form w) \<longrightarrow>
        error (form (fire P w (Change val))) = None \<and> retryCount (form (fire P w (Change val))) = 0
        \<and> phoneNumber (form (fire P w (Change val))) = val)
   \<and> (error (form w) \<noteq> None \<and> \<not> busy (form w) \<and> validateIranianPhone val
        \<and> fetch_fails a1 \<and> fetch_fails a2 \<and> fetch_fails a3 \<longrightarrow>
        retry_offered (form (run P w [Change val, Submit a1]))
        \<and> retry_offered (form (run P w [Change val, Submit a1, Retry a2]))
        \<and> \<not> retry_offered (form (run P w [Change val, Submit a1, Retry a2, Retry a3]))
        \<and> reset_offered (form (run P w [Change val, Submit a1, Retry a2, Retry a3])))"
proof -
  have h: "error r \<noteq> None \<Longrightarrow>
      error (handlePhoneChange r val f) = None \<and> retryCount (handlePhoneChange r val f) = 0
      \<and> phoneNumber (handlePhoneChange r val f) = val" for r f
    by (simp add: handlePhoneChange_def clearError_def)
  have c: "error (form w) \<noteq> None \<Longrightarrow> \<not> busy (form w) \<Longrightarrow>
      form (fire P w (Change val)) = (form w)\<lparr>phoneNumber := val, error := None, retryCount := 0\<rparr>"
    by (simp add: handlePhoneChange_def clearError_def)
  have b: "retry_offered (form (run P w [Change val, Submit a1]))
        \<and> retry_offered (form (run P w [Change val, Submit a1, Retry a2]))
        \<and> \<not> retry_offered (form (run P w [Change val, Submit a1, Retry a2, Retry a3]))
        \<and> reset_offered (form (run P w [Change val, Submit a1, Retry a2, Retry a3]))"
    if e: "error (form w) \<noteq> None" and nb: "\<not> busy (form w)" and v: "validateIranianPhone val"
      and f: "fetch_fails a1" "fetch_fails a2" "fetch_fails a3"
  proof -
    let ?w = "fire P w (Change val)"
    have 1: "validateIranianPhone (phoneNumber (form ?w))" "\<not> busy (form ?w)" "retryCount (form ?w) = 0"
      using c [OF e nb] nb v by (simp_all add: busy_def)
    have r: "run P w (Change val # evs) = run P ?w evs" for evs
      by (simp add: run_def)
    show ?thesis
      unfolding r using three_failures [OF 1(1,2) f, of P] 1(3) by simp
  qed
  show ?thesis using h [of r f] c b by simp
qed

theorem phone_change_restores_budget_witness:
  "error (form (run reference_platform (typed_world empty_store) [Submit failing_attempt])) \<noteq> None
   \<and> \<not> busy (form (run reference_platform (typed_world empty_store) [Submit failing_attempt]))
   \<and> retryCount (form (run reference_platform (typed_world empty_store) [Submit failing_attempt])) = 1
   \<and> validateIranianPhone ''+989123456789''
   \<and> fetch_fails failing_attempt
   \<and> error (form (run reference_platform (typed_world empty_store)
        [Submit failing_attempt, Change ''+989123456789''])) = None
   \<and> retryCount (form (run reference_platform (typed_world empty_store)
        [Submit failing_attempt, Change ''+989123456789''])) = 0
   \<and> retry_offered (form (run reference_platform (typed_world empty_store)
        [Submit failing_attempt, Change ''+989123456789'', Submit failing_attempt]))
   \<and> retry_offered (form (run reference_platform (typed_world empty_store)
        [Submit failing_attempt, Change ''+989123456789'', Submit failing_attempt, Retry failing_attempt]))
   \<and> \<not> retry_offered (form (run reference_platform (typed_world empty_store)
        [Submit failing_attempt, Change ''+989123456789'', Submit failing_attempt, Retry failing_attempt,
         Retry failing_attempt]))
   \<and> reset_offered (form (run reference_platform (typed_world empty_store)
        [Submit failing_attempt, Change ''+989123456789'', Submit failing_attempt, Retry failing_attempt,
         Retry failing_attempt]))"
proof -
  define w1 where "w1 = fire reference_platform (typed_world empty_store) (Submit failing_attempt)"
  note s1 = fire_submit_fails [of "typed_world empty_store" failing_attempt reference_platform, folded w1_def,
      OF typed_world_simps(1,2) failing_attempt_fails]
  have c1: "retryCount (form w1) = 1" using s1(1) by (simp add: typed_world_simps)
  have e1: "error (form w1) \<noteq> None"
    using s1(2) by (cases "error (form w1)") (simp_all add: has_retryable_error_def)
  have v: "validateIranianPhone ''+989123456789''" by (simp add: validate_iff phone_eval)
  have r: "run reference_platform (typed_world empty_store) (Submit failing_attempt # evs)
      = run reference_platform w1 evs" for evs
    by (simp add: run_def w1_def)
  have r0: "run reference_platform w1 [] = w1" "run reference_platform w1 [ev] = fire reference_platform w1 ev" for ev
    by (simp_all add: run_def)
  show ?thesis
    unfolding r
    using e1 s1(4) c1 v failing_attempt_fails
      phone_change_restores_budget [of "form w1" "''+989123456789''" "form w1" w1 reference_platform
        failing_attempt failing_attempt failing_attempt]
    by (simp add: r0)
qed

end
